theory Spec2Isabelle
  imports Main "HOL-Library.Word"
begin

unbundle bit_operations_syntax

section \<open>JavaScript strings and thrown errors\<close>

text \<open>
  A JavaScript string is modelled as a \<^typ>\<open>string\<close>: a list of code units below 256
  (HTTP header values and the ASCII literals of the source). A value that may be
  \<^verbatim>\<open>undefined\<close> or \<^verbatim>\<open>null\<close> is a \<^typ>\<open>string option\<close>.

  The two \<^verbatim>\<open>throw new Error(...)\<close> of the digest client carry their messages; the
  specification's names for them are \<open>ProtocolError\<close> and \<open>MissingCredentials\<close>.
  \<open>TypeError\<close> is what \<^verbatim>\<open>match[2].trim()\<close> would throw on an unmatched group and what
  \<^verbatim>\<open>Headers\<close> throws for a name or value it does not accept; \<open>FetchRejected\<close> is a
  rejected \<^verbatim>\<open>fetch\<close> promise.
\<close>

datatype error = Error string | TypeError | FetchRejected

definition ProtocolError :: error where
  "ProtocolError = Error ''Camera did not return a Digest challenge''"

definition MissingCredentials :: error where
  "MissingCredentials = Error ''Missing username or password for digest authentication''"

definition dq :: char where
  "dq = CHR 0x22"

text \<open>Template-literal interpolation \<^verbatim>\<open>${v}\<close>: \<^verbatim>\<open>undefined\<close> prints as its name.\<close>

definition interp :: "string option \<Rightarrow> string" where
  "interp v = (case v of None \<Rightarrow> ''undefined'' | Some s \<Rightarrow> s)"

text \<open>\<^verbatim>\<open>!v\<close> on a string or \<^verbatim>\<open>undefined\<close>: true for \<^verbatim>\<open>undefined\<close>, \<^verbatim>\<open>null\<close> and the empty string.\<close>

definition falsy :: "string option \<Rightarrow> bool" where
  "falsy v = (case v of None \<Rightarrow> True | Some s \<Rightarrow> s = [])"

text \<open>\<^verbatim>\<open>String.prototype.trim\<close>: the white space and line terminators below 256.\<close>

definition is_space :: "char \<Rightarrow> bool" where
  "is_space c = (of_char c \<in> {9, 10, 11, 12, 13, 32, 160 :: nat})"

definition trim :: "string \<Rightarrow> string" where
  "trim s = rev (dropWhile is_space (rev (dropWhile is_space s)))"

section \<open>The regular expression of \<open>parseDigestHeader\<close>\<close>

text \<open>
  The source's \<^verbatim>\<open>/(\w+)=((?:"[^"]+")|[^,]+)/g\<close> is kept as a syntax tree and run by a
  backtracking matcher. \<open>rmatch r s caps\<close> lists every way \<open>r\<close> matches a prefix of \<open>s\<close>
  (the rest of the input and the capture groups), in the order a backtracking engine
  tries them: a greedy \<open>+\<close> longest first, the left alternative before the right one.
  The engine's answer is the head of the list.
\<close>

datatype cls = Word | NotChr char

datatype regex = Lit char | Plus cls | Seq regex regex | Alt regex regex | Group nat regex

fun in_cls :: "cls \<Rightarrow> char \<Rightarrow> bool" where
  "in_cls Word c =
     (let n = of_char c :: nat
      in (48 \<le> n \<and> n \<le> 57) \<or> (65 \<le> n \<and> n \<le> 90) \<or> n = 95 \<or> (97 \<le> n \<and> n \<le> 122))"
| "in_cls (NotChr x) c = (c \<noteq> x)"

fun plus_cls :: "cls \<Rightarrow> string \<Rightarrow> string list" where
  "plus_cls k [] = []"
| "plus_cls k (c # cs) = (if in_cls k c then plus_cls k cs @ [cs] else [])"

type_synonym captures = "nat \<rightharpoonup> string"

fun rmatch :: "regex \<Rightarrow> string \<Rightarrow> captures \<Rightarrow> (string \<times> captures) list" where
  "rmatch (Lit x) s caps = (case s of [] \<Rightarrow> [] | c # cs \<Rightarrow> if c = x then [(cs, caps)] else [])"
| "rmatch (Plus k) s caps = map (\<lambda>rest. (rest, caps)) (plus_cls k s)"
| "rmatch (Seq r1 r2) s caps =
     concat (map (\<lambda>(rest, caps'). rmatch r2 rest caps') (rmatch r1 s caps))"
| "rmatch (Alt r1 r2) s caps = rmatch r1 s caps @ rmatch r2 s caps"
| "rmatch (Group i r) s caps =
     map (\<lambda>(rest, caps'). (rest, caps'(i \<mapsto> take (length s - length rest) s)))
       (rmatch r s caps)"

text \<open>
  \<^verbatim>\<open>regex.exec\<close> with the \<^verbatim>\<open>g\<close> flag searches from \<^verbatim>\<open>lastIndex\<close> for the leftmost
  start at which the expression matches and moves \<^verbatim>\<open>lastIndex\<close> behind the match.
  The argument is the input from \<^verbatim>\<open>lastIndex\<close> on; the result is the capture groups
  and the input behind the match.
\<close>

fun regex_exec :: "regex \<Rightarrow> string \<Rightarrow> (captures \<times> string) option" where
  "regex_exec r [] =
     (case rmatch r [] Map.empty of [] \<Rightarrow> None | (rest, caps) # _ \<Rightarrow> Some (caps, rest))"
| "regex_exec r (c # cs) =
     (case rmatch r (c # cs) Map.empty of
        [] \<Rightarrow> regex_exec r cs
      | (rest, caps) # _ \<Rightarrow> Some (caps, rest))"

definition digest_regex :: regex where
  "digest_regex =
     Seq (Group 1 (Plus Word))
       (Seq (Lit CHR ''='')
          (Group 2 (Alt (Seq (Lit dq) (Seq (Plus (NotChr dq)) (Lit dq)))
                        (Plus (NotChr CHR '','')))))"

text \<open>The least number of characters a match consumes.\<close>

fun min_len :: "regex \<Rightarrow> nat" where
  "min_len (Lit x) = 1"
| "min_len (Plus k) = 1"
| "min_len (Seq r1 r2) = min_len r1 + min_len r2"
| "min_len (Alt r1 r2) = min (min_len r1) (min_len r2)"
| "min_len (Group i r) = min_len r"

section \<open>\<open>parseDigestHeader\<close>\<close>

type_synonym params = "string \<rightharpoonup> string"

text \<open>
  \<^verbatim>\<open>params[key] = value\<close> on a plain object: an own property, except for the key
  \<^verbatim>\<open>__proto__\<close>, whose inherited setter ignores a string.
\<close>

definition set_prop :: "params \<Rightarrow> string \<Rightarrow> string \<Rightarrow> params" where
  "set_prop ps key v = (if key = ''__proto__'' then ps else ps(key \<mapsto> v))"

text \<open>
  \<^verbatim>\<open>if (value.startsWith("\"") && value.endsWith("\"")) value = value.slice(1, -1)\<close>
\<close>

definition unquote :: "string \<Rightarrow> string" where
  "unquote v = (if v \<noteq> [] \<and> hd v = dq \<and> last v = dq then butlast (tl v) else v)"

text \<open>
  The \<^verbatim>\<open>while ((match = regex.exec(challenge)) !== null)\<close> loop. Its state is the
  input behind the last match and the object built so far.
\<close>

function match_loop :: "string \<Rightarrow> params \<Rightarrow> error + params" where
  "match_loop s ps =
     (case regex_exec digest_regex s of
        None \<Rightarrow> Inr ps
      | Some (caps, rest) \<Rightarrow>
          (case caps 2 of
             None \<Rightarrow> Inl TypeError
           | Some raw \<Rightarrow> match_loop rest (set_prop ps (interp (caps 1)) (unquote (trim raw)))))"
  by pat_completeness auto

definition parseDigestHeader :: "string option \<Rightarrow> error + params" where
  "parseDigestHeader header =
     (case header of
        None \<Rightarrow> Inl ProtocolError
      | Some h \<Rightarrow>
          if h = [] \<or> take 7 h \<noteq> ''Digest '' then Inl ProtocolError
          else match_loop (drop 7 h) Map.empty)"

section \<open>Hashing: the library functions behind \<open>md5\<close>\<close>

text \<open>
  \<^verbatim>\<open>crypto.createHash("md5").update(value).digest("hex")\<close> is Node's library code, not
  this repository's. It is modelled by the algorithm of RFC 1321 on the UTF-8 bytes of the
  string, printed as lower-case hexadecimal. 32-bit words wrap around on \<open>+\<close>.
\<close>

type_synonym u32 = "32 word"
type_synonym byte = "8 word"

definition hex_digit :: "nat \<Rightarrow> char" where
  "hex_digit n = ''0123456789abcdef'' ! n"

definition hex_byte :: "byte \<Rightarrow> string" where
  "hex_byte b = [hex_digit (unat (drop_bit 4 b)), hex_digit (unat (b AND 15))]"

definition to_hex :: "byte list \<Rightarrow> string" where
  "to_hex bs = concat (map hex_byte bs)"

definition utf8 :: "string \<Rightarrow> byte list" where
  "utf8 s = concat (map (\<lambda>c. let n = of_char c :: nat in
       if n < 128 then [of_nat n] else [of_nat (192 + n div 64), of_nat (128 + n mod 64)]) s)"

definition u32_bytes :: "u32 \<Rightarrow> byte list" where
  "u32_bytes w = [ucast w, ucast (drop_bit 8 w), ucast (drop_bit 16 w), ucast (drop_bit 24 w)]"

definition u64_bytes :: "nat \<Rightarrow> byte list" where
  "u64_bytes n = [of_nat n, of_nat (n div 2 ^ 8), of_nat (n div 2 ^ 16), of_nat (n div 2 ^ 24),
      of_nat (n div 2 ^ 32), of_nat (n div 2 ^ 40), of_nat (n div 2 ^ 48), of_nat (n div 2 ^ 56)]"

definition rotl :: "u32 \<Rightarrow> nat \<Rightarrow> u32" where
  "rotl x n = (push_bit n x) OR (drop_bit (32 - n) x)"

definition md5_K :: "u32 list" where
  "md5_K = [
  0xd76aa478, 0xe8c7b756, 0x242070db, 0xc1bdceee, 0xf57c0faf, 0x4787c62a, 0xa8304613, 0xfd469501,
  0x698098d8, 0x8b44f7af, 0xffff5bb1, 0x895cd7be, 0x6b901122, 0xfd987193, 0xa679438e, 0x49b40821,
  0xf61e2562, 0xc040b340, 0x265e5a51, 0xe9b6c7aa, 0xd62f105d, 0x02441453, 0xd8a1e681, 0xe7d3fbc8,
  0x21e1cde6, 0xc33707d6, 0xf4d50d87, 0x455a14ed, 0xa9e3e905, 0xfcefa3f8, 0x676f02d9, 0x8d2a4c8a,
  0xfffa3942, 0x8771f681, 0x6d9d6122, 0xfde5380c, 0xa4beea44, 0x4bdecfa9, 0xf6bb4b60, 0xbebfbc70,
  0x289b7ec6, 0xeaa127fa, 0xd4ef3085, 0x04881d05, 0xd9d4d039, 0xe6db99e5, 0x1fa27cf8, 0xc4ac5665,
  0xf4292244, 0x432aff97, 0xab9423a7, 0xfc93a039, 0x655b59c3, 0x8f0ccc92, 0xffeff47d, 0x85845dd1,
  0x6fa87e4f, 0xfe2ce6e0, 0xa3014314, 0x4e0811a1, 0xf7537e82, 0xbd3af235, 0x2ad7d2bb, 0xeb86d391]"

definition md5_S :: "nat list" where
  "md5_S = [7, 12, 17, 22, 7, 12, 17, 22, 7, 12, 17, 22, 7, 12, 17, 22,
            5, 9, 14, 20, 5, 9, 14, 20, 5, 9, 14, 20, 5, 9, 14, 20,
            4, 11, 16, 23, 4, 11, 16, 23, 4, 11, 16, 23, 4, 11, 16, 23,
            6, 10, 15, 21, 6, 10, 15, 21, 6, 10, 15, 21, 6, 10, 15, 21]"

definition md5_F :: "nat \<Rightarrow> u32 \<Rightarrow> u32 \<Rightarrow> u32 \<Rightarrow> u32" where
  "md5_F i b c d =
     (if i < 16 then (b AND c) OR (NOT b AND d)
      else if i < 32 then (d AND b) OR (NOT d AND c)
      else if i < 48 then b XOR c XOR d
      else c XOR (b OR NOT d))"

definition md5_g :: "nat \<Rightarrow> nat" where
  "md5_g i =
     (if i < 16 then i
      else if i < 32 then (5 * i + 1) mod 16
      else if i < 48 then (3 * i + 5) mod 16
      else (7 * i) mod 16)"

type_synonym md5_state = "u32 \<times> u32 \<times> u32 \<times> u32"

text \<open>One of the 64 operations of a block: its number, shift amount and constant.\<close>

fun md5_round :: "u32 list \<Rightarrow> md5_state \<Rightarrow> nat \<times> nat \<times> u32 \<Rightarrow> md5_state" where
  "md5_round m (a, b, c, d) (i, s, k) =
     (d, b + rotl (md5_F i b c d + a + k + m ! md5_g i) s, b, c)"

fun words_le :: "byte list \<Rightarrow> u32 list" where
  "words_le (a # b # c # d # rest) =
     (ucast a OR push_bit 8 (ucast b) OR push_bit 16 (ucast c) OR push_bit 24 (ucast d))
       # words_le rest"
| "words_le _ = []"

fun md5_add :: "md5_state \<Rightarrow> md5_state \<Rightarrow> md5_state" where
  "md5_add (a0, b0, c0, d0) (a, b, c, d) = (a0 + a, b0 + b, c0 + c, d0 + d)"

definition md5_block :: "md5_state \<Rightarrow> byte list \<Rightarrow> md5_state" where
  "md5_block st block =
     md5_add st (foldl (md5_round (words_le block)) st (zip [0..<64] (zip md5_S md5_K)))"

function md5_blocks :: "md5_state \<Rightarrow> byte list \<Rightarrow> md5_state" where
  "md5_blocks st bs =
     (if length bs < 64 then st else md5_blocks (md5_block st (take 64 bs)) (drop 64 bs))"
  by pat_completeness auto
termination
  by (relation "measure (\<lambda>(st, bs). length bs)") auto

declare md5_blocks.simps [simp del]

definition md5_pad :: "byte list \<Rightarrow> byte list" where
  "md5_pad msg =
     msg @ [0x80] @ replicate ((119 - length msg mod 64) mod 64) 0
       @ u64_bytes (8 * length msg)"

fun md5_out :: "md5_state \<Rightarrow> byte list" where
  "md5_out (a, b, c, d) = u32_bytes a @ u32_bytes b @ u32_bytes c @ u32_bytes d"

definition md5_bytes :: "byte list \<Rightarrow> byte list" where
  "md5_bytes msg =
     md5_out (md5_blocks (0x67452301, 0xefcdab89, 0x98badcfe, 0x10325476) (md5_pad msg))"

definition md5 :: "string \<Rightarrow> string" where
  "md5 v = to_hex (md5_bytes (utf8 v))"

text \<open>
  SHA-256 (FIPS 180-4, the \<^verbatim>\<open>algorithm=SHA-256\<close> of RFC 7616) is the second hash a Digest
  challenge can name. The source never calls it; it is modelled to state what a client
  that follows the challenge's \<^verbatim>\<open>algorithm\<close> would compute.
\<close>

definition rotr :: "u32 \<Rightarrow> nat \<Rightarrow> u32" where
  "rotr x n = (drop_bit n x) OR (push_bit (32 - n) x)"

definition sha256_K :: "u32 list" where
  "sha256_K =
    [1116352408, 1899447441, 3049323471, 3921009573, 961987163, 1508970993,
     2453635748, 2870763221, 3624381080, 310598401, 607225278, 1426881987,
     1925078388, 2162078206, 2614888103, 3248222580, 3835390401, 4022224774,
     264347078, 604807628, 770255983, 1249150122, 1555081692, 1996064986,
     2554220882, 2821834349, 2952996808, 3210313671, 3336571891, 3584528711,
     113926993, 338241895, 666307205, 773529912, 1294757372, 1396182291,
     1695183700, 1986661051, 2177026350, 2456956037, 2730485921, 2820302411,
     3259730800, 3345764771, 3516065817, 3600352804, 4094571909, 275423344,
     430227734, 506948616, 659060556, 883997877, 958139571, 1322822218,
     1537002063, 1747873779, 1955562222, 2024104815, 2227730452, 2361852424,
     2428436474, 2756734187, 3204031479, 3329325298]"

fun words_be :: "byte list \<Rightarrow> u32 list" where
  "words_be (a # b # c # d # rest) =
     (push_bit 24 (ucast a) OR push_bit 16 (ucast b) OR push_bit 8 (ucast c) OR ucast d)
       # words_be rest"
| "words_be _ = []"

definition sha256_extend :: "u32 list \<Rightarrow> nat \<Rightarrow> u32 list" where
  "sha256_extend w i =
     w @ [w ! (i - 16)
          + (rotr (w ! (i - 15)) 7 XOR rotr (w ! (i - 15)) 18 XOR drop_bit 3 (w ! (i - 15)))
          + w ! (i - 7)
          + (rotr (w ! (i - 2)) 17 XOR rotr (w ! (i - 2)) 19 XOR drop_bit 10 (w ! (i - 2)))]"

type_synonym sha256_state = "u32 \<times> u32 \<times> u32 \<times> u32 \<times> u32 \<times> u32 \<times> u32 \<times> u32"

fun sha256_round :: "sha256_state \<Rightarrow> u32 \<times> u32 \<Rightarrow> sha256_state" where
  "sha256_round (a, b, c, d, e, f, g, h) (k, w) =
     (let t1 = h + (rotr e 6 XOR rotr e 11 XOR rotr e 25) + ((e AND f) XOR (NOT e AND g)) + k + w;
          t2 = (rotr a 2 XOR rotr a 13 XOR rotr a 22) + ((a AND b) XOR (a AND c) XOR (b AND c))
      in (t1 + t2, a, b, c, d + t1, e, f, g))"

fun sha256_add :: "sha256_state \<Rightarrow> sha256_state \<Rightarrow> sha256_state" where
  "sha256_add (a0, b0, c0, d0, e0, f0, g0, h0) (a, b, c, d, e, f, g, h) =
     (a0 + a, b0 + b, c0 + c, d0 + d, e0 + e, f0 + f, g0 + g, h0 + h)"

definition sha256_block :: "sha256_state \<Rightarrow> byte list \<Rightarrow> sha256_state" where
  "sha256_block st block =
     sha256_add st
       (foldl sha256_round st (zip sha256_K (foldl sha256_extend (words_be block) [16..<64])))"

function sha256_blocks :: "sha256_state \<Rightarrow> byte list \<Rightarrow> sha256_state" where
  "sha256_blocks st bs =
     (if length bs < 64 then st else sha256_blocks (sha256_block st (take 64 bs)) (drop 64 bs))"
  by pat_completeness auto
termination
  by (relation "measure (\<lambda>(st, bs). length bs)") auto

declare sha256_blocks.simps [simp del]

definition sha256_pad :: "byte list \<Rightarrow> byte list" where
  "sha256_pad msg =
     msg @ [0x80] @ replicate ((119 - length msg mod 64) mod 64) 0
       @ rev (u64_bytes (8 * length msg))"

fun sha256_out :: "sha256_state \<Rightarrow> byte list" where
  "sha256_out (a, b, c, d, e, f, g, h) =
     rev (u32_bytes a) @ rev (u32_bytes b) @ rev (u32_bytes c) @ rev (u32_bytes d)
       @ rev (u32_bytes e) @ rev (u32_bytes f) @ rev (u32_bytes g) @ rev (u32_bytes h)"

definition sha256_bytes :: "byte list \<Rightarrow> byte list" where
  "sha256_bytes msg =
     sha256_out (sha256_blocks
       (0x6a09e667, 0xbb67ae85, 0x3c6ef372, 0xa54ff53a,
        0x510e527f, 0x9b05688c, 0x1f83d9ab, 0x5be0cd19)
       (sha256_pad msg))"

definition sha256 :: "string \<Rightarrow> string" where
  "sha256 v = to_hex (sha256_bytes (utf8 v))"

section \<open>The digest client\<close>

text \<open>
  \<open>authenticate\<close>. The eight bytes of \<^verbatim>\<open>crypto.randomBytes(8)\<close> are the argument \<open>rnd\<close>;
  \<open>username\<close> and \<open>password\<close> may be \<^verbatim>\<open>undefined\<close>. The result is the value of the
  \<^verbatim>\<open>Authorization\<close> header, or the thrown error.
\<close>

definition authenticate ::
  "byte list \<Rightarrow> params \<Rightarrow> string \<Rightarrow> string \<Rightarrow> string option \<Rightarrow> string option \<Rightarrow> error + string"
where
  \<open>authenticate rnd ps method digestUri username password =
     (if falsy username \<or> falsy password then Inl MissingCredentials
      else
        let nc = ''00000001'';
            cnonce = to_hex rnd;
            ha1 = md5 (interp username @ '':'' @ interp (ps ''realm'') @ '':'' @ interp password);
            ha2 = md5 (method @ '':'' @ digestUri);
            response = md5 (ha1 @ '':'' @ interp (ps ''nonce'') @ '':'' @ nc @ '':'' @ cnonce
                              @ '':'' @ interp (ps ''qop'') @ '':'' @ ha2)
        in Inr (''Digest username="'' @ interp username @ ''", realm="'' @ interp (ps ''realm'')
                  @ ''", nonce="'' @ interp (ps ''nonce'') @ ''", ''
                  @ ''uri="'' @ digestUri @ ''", algorithm=MD5, response="'' @ response
                  @ ''", qop='' @ interp (ps ''qop'') @ '', nc='' @ nc
                  @ '', cnonce="'' @ cnonce @ ''"''))\<close>

text \<open>
  HTTP as \<open>fetchWithDigest\<close> sees it. \<^verbatim>\<open>Headers\<close> is the global class of Node 18 and
  later, library code that follows the Fetch standard: a name must be an HTTP token; a
  value is normalised by removing the HTTP white space (tab, LF, CR, space) at both ends
  and must then hold no NUL, LF or CR; a name or value that fails makes the constructor,
  \<^verbatim>\<open>append\<close> and \<^verbatim>\<open>set\<close> throw a \<^verbatim>\<open>TypeError\<close>. (The conversion to a byte string, which
  refuses code units above 255, succeeds on every \<^typ>\<open>string\<close>.) A \<^verbatim>\<open>Headers\<close> object is
  modelled by what \<^verbatim>\<open>get\<close> returns: a map from lower-case names to values, the values
  appended under one name joined by a comma and a space. \<^verbatim>\<open>fetch\<close> builds such an object
  from whatever \<^verbatim>\<open>headers\<close> it is given, so two requests are compared by \<open>new_Headers\<close>
  of their \<open>req_headers\<close>.
\<close>

definition lower_char :: "char \<Rightarrow> char" where
  "lower_char c =
     (case map_of (zip ''ABCDEFGHIJKLMNOPQRSTUVWXYZ'' ''abcdefghijklmnopqrstuvwxyz'') c of
        None \<Rightarrow> c
      | Some l \<Rightarrow> l)"

definition lower :: "string \<Rightarrow> string" where
  "lower s = map lower_char s"

definition is_tchar :: "char \<Rightarrow> bool" where
  "is_tchar c =
     (let n = of_char c :: nat
      in (48 \<le> n \<and> n \<le> 57) \<or> (65 \<le> n \<and> n \<le> 90) \<or> (97 \<le> n \<and> n \<le> 122)
         \<or> n \<in> {33, 35, 36, 37, 38, 39, 42, 43, 45, 46, 94, 95, 96, 124, 126})"

definition is_header_name :: "string \<Rightarrow> bool" where
  "is_header_name name = (name \<noteq> [] \<and> list_all is_tchar name)"

definition http_whitespace :: "char \<Rightarrow> bool" where
  "http_whitespace c = (of_char c \<in> {9, 10, 13, 32 :: nat})"

definition normalize_value :: "string \<Rightarrow> string" where
  "normalize_value v = rev (dropWhile http_whitespace (rev (dropWhile http_whitespace v)))"

definition is_header_value :: "string \<Rightarrow> bool" where
  "is_header_value v = list_all (\<lambda>c. of_char c \<notin> {0, 10, 13 :: nat}) v"

type_synonym Headers = "string \<rightharpoonup> string"

datatype headers_init = NoHeaders | PlainObject "(string \<times> string) list" | HeadersObject Headers

definition Headers_append :: "Headers \<Rightarrow> string \<times> string \<Rightarrow> error + Headers" where
  "Headers_append h nv =
     (let name = fst nv; v = normalize_value (snd nv)
      in if \<not> is_header_name name \<or> \<not> is_header_value v then Inl TypeError
         else (case h (lower name) of
                 None \<Rightarrow> Inr (h(lower name \<mapsto> v))
               | Some old \<Rightarrow> Inr (h(lower name \<mapsto> old @ '', '' @ v))))"

definition Headers_set :: "Headers \<Rightarrow> string \<Rightarrow> string \<Rightarrow> error + Headers" where
  "Headers_set h name val =
     (let v = normalize_value val
      in if \<not> is_header_name name \<or> \<not> is_header_value v then Inl TypeError
         else Inr (h(lower name \<mapsto> v)))"

text \<open>
  The constructor appends the entries of a plain object one by one; with no argument
  the object is empty; from a \<^verbatim>\<open>Headers\<close> object it makes a copy.
\<close>

fun fill :: "Headers \<Rightarrow> (string \<times> string) list \<Rightarrow> error + Headers" where
  "fill h [] = Inr h"
| "fill h (nv # nvs) = (case Headers_append h nv of Inl e \<Rightarrow> Inl e | Inr h' \<Rightarrow> fill h' nvs)"

fun new_Headers :: "headers_init \<Rightarrow> error + Headers" where
  "new_Headers NoHeaders = Inr Map.empty"
| "new_Headers (PlainObject kvs) = fill Map.empty kvs"
| "new_Headers (HeadersObject h) = Inr h"

record request =
  req_url :: string
  req_method :: string
  req_headers :: headers_init
  req_options :: "(string \<times> string) list"

record response =
  status :: nat
  headers :: Headers
  body :: string

text \<open>
  The target URL, an absolute URL, with the two components \<^verbatim>\<open>new URL(targetUrl)\<close> gives
  for it (the URL parser is library code). The options of a call: \<^verbatim>\<open>method\<close>,
  \<^verbatim>\<open>headers\<close> (a plain object), \<^verbatim>\<open>username\<close> and \<^verbatim>\<open>password\<close> may be absent, and
  \<open>fetchOptions\<close> is the rest (\<^verbatim>\<open>body\<close>, ...).
\<close>

record url =
  href :: string
  pathname :: string
  search :: string

record options =
  opt_method :: "string option"
  opt_headers :: "(string \<times> string) list option"
  username :: "string option"
  password :: "string option"
  fetchOptions :: "(string \<times> string) list"

text \<open>
  The network: the outcome of a \<^verbatim>\<open>fetch\<close>, given the requests sent before it. An
  \<open>Inl\<close> is a rejected promise.
\<close>

type_synonym network = "request list \<Rightarrow> request \<Rightarrow> error + response"

text \<open>
  The arguments of the two \<^verbatim>\<open>fetch\<close> calls. \<^verbatim>\<open>method\<close> defaults to \<^verbatim>\<open>"GET"\<close>. The
  headers of the second call are \<open>next_headers\<close>: \<^verbatim>\<open>new Headers(headers || {})\<close>, then
  \<^verbatim>\<open>nextHeaders.set("Authorization", authHeader)\<close>, either of which may throw.
\<close>

definition method_of :: "options \<Rightarrow> string" where
  "method_of opts = (case opt_method opts of None \<Rightarrow> ''GET'' | Some m \<Rightarrow> m)"

definition initial_request :: "url \<Rightarrow> options \<Rightarrow> request" where
  "initial_request targetUrl opts =
     \<lparr>req_url = href targetUrl, req_method = method_of opts,
      req_headers = (case opt_headers opts of None \<Rightarrow> NoHeaders | Some kvs \<Rightarrow> PlainObject kvs),
      req_options = fetchOptions opts\<rparr>"

definition next_headers :: "options \<Rightarrow> string \<Rightarrow> error + Headers" where
  "next_headers opts authHeader =
     (case new_Headers (case opt_headers opts of
                          None \<Rightarrow> PlainObject []
                        | Some kvs \<Rightarrow> PlainObject kvs) of
        Inl e \<Rightarrow> Inl e
      | Inr nextHeaders \<Rightarrow> Headers_set nextHeaders ''Authorization'' authHeader)"

definition retry_request :: "url \<Rightarrow> options \<Rightarrow> Headers \<Rightarrow> request" where
  "retry_request targetUrl opts nextHeaders =
     \<lparr>req_url = href targetUrl, req_method = method_of opts,
      req_headers = HeadersObject nextHeaders,
      req_options = fetchOptions opts\<rparr>"

text \<open>
  \<open>fetchWithDigest\<close> returns what the \<^verbatim>\<open>async\<close> function settles to, and the requests it
  has handed to \<^verbatim>\<open>fetch\<close>, in order.
\<close>

definition fetchWithDigest ::
  "network \<Rightarrow> byte list \<Rightarrow> url \<Rightarrow> options \<Rightarrow> (error + response) \<times> request list"
where
  "fetchWithDigest net rnd targetUrl opts =
     (let req1 = initial_request targetUrl opts
      in case net [] req1 of
           Inl e \<Rightarrow> (Inl e, [req1])
         | Inr initialResponse \<Rightarrow>
             if status initialResponse \<noteq> 401 then (Inr initialResponse, [req1])
             else
               (case parseDigestHeader (headers initialResponse ''www-authenticate'') of
                  Inl e \<Rightarrow> (Inl e, [req1])
                | Inr ps \<Rightarrow>
                    let digestUri = pathname targetUrl @ search targetUrl
                    in (case authenticate rnd ps (method_of opts) digestUri
                               (username opts) (password opts) of
                          Inl e \<Rightarrow> (Inl e, [req1])
                        | Inr authHeader \<Rightarrow>
                            (case next_headers opts authHeader of
                               Inl e \<Rightarrow> (Inl e, [req1])
                             | Inr nextHeaders \<Rightarrow>
                                 let req2 = retry_request targetUrl opts nextHeaders
                                 in (net [req1] req2, [req1, req2])))))"

text \<open>
  What the specification asks of a client that follows the challenge: the hash is the one
  the \<^verbatim>\<open>algorithm\<close> parameter names, MD5 when there is none. \<open>named_hash\<close> knows the two
  algorithms modelled above. \<open>rfc2617_response\<close> is the response of RFC 2617 for
  \<^verbatim>\<open>qop=auth\<close> with the hash as a parameter; neither definition is part of the source.
\<close>

definition named_hash :: "string option \<Rightarrow> (string \<Rightarrow> string) option" where
  "named_hash alg =
     (case alg of
        None \<Rightarrow> Some md5
      | Some a \<Rightarrow> if a = ''MD5'' then Some md5 else if a = ''SHA-256'' then Some sha256 else None)"

definition rfc2617_response ::
  "(string \<Rightarrow> string) \<Rightarrow> string \<Rightarrow> params \<Rightarrow> string \<Rightarrow> string \<Rightarrow> string \<Rightarrow> string \<Rightarrow> string"
where
  "rfc2617_response H cnonce ps method digestUri user pass =
     H (H (user @ '':'' @ interp (ps ''realm'') @ '':'' @ pass) @ '':'' @ interp (ps ''nonce'')
          @ '':00000001:'' @ cnonce @ '':'' @ interp (ps ''qop'') @ '':''
          @ H (method @ '':'' @ digestUri))"

section \<open>The stream server\<close>

text \<open>
  The first program of \<^verbatim>\<open>server.js\<close>. Its state is the \<^verbatim>\<open>activeStreams\<close> map, the child
  processes spawned so far (a process handle is its position in \<open>children\<close>), the
  module's constant \<^verbatim>\<open>hlsDir\<close>, the directories that exist in the file system (files are
  not modelled), and the effects performed, in order. Every route handler is
  synchronous: it runs from its first statement to its last without yielding to the
  event loop, so a handler is one function from state to state.
\<close>

record stream =
  stream_id :: string
  stream_name :: string
  stream_url :: string
  stream_group :: string

datatype event_name = EvData | EvError | EvClose

text \<open>
  A listener is the event it is registered for and the camera identifier its closure
  holds: the callbacks for \<^verbatim>\<open>'error'\<close> and \<^verbatim>\<open>'close'\<close> log and run
  \<^verbatim>\<open>activeStreams.delete(cameraId)\<close>; the one for \<^verbatim>\<open>'data'\<close> on \<^verbatim>\<open>stderr\<close> only logs.
\<close>

record child =
  argv :: "string list"
  listeners :: "(event_name \<times> string) list"
  signals :: "string list"

datatype effect =
    Mkdir string
  | Spawn nat
  | Listen nat event_name
  | MapSet string nat
  | MapDelete string
  | Kill nat string

record server =
  activeStreams :: "string \<rightharpoonup> nat"
  children :: "child list"
  hlsDir :: string
  dirs :: "string set"
  trace :: "effect list"

datatype json =
    ErrorJson string
  | StartJson string string
  | StopJson string
  | StatusJson bool "string option"

record reply =
  code :: nat
  json_body :: json

text \<open>
  \<^verbatim>\<open>path.join\<close> is library code, modelled for POSIX paths and two arguments: the
  non-empty arguments are joined with a slash and the result is normalised. The
  normalisation goes through the segments between slashes from left to right: an empty
  segment and \<^verbatim>\<open>.\<close> are dropped; \<^verbatim>\<open>..\<close> removes the segment before it, unless there is
  none or it is \<^verbatim>\<open>..\<close> itself, in which case \<^verbatim>\<open>..\<close> is kept in a relative path and dropped
  in an absolute one; a trailing slash is kept. Writing to the console is not modelled.
\<close>

fun split_slash :: "string \<Rightarrow> string list" where
  "split_slash [] = [[]]"
| "split_slash (c # cs) =
     (case split_slash cs of
        [] \<Rightarrow> [[c]]
      | seg # segs \<Rightarrow> if c = CHR ''/'' then [] # seg # segs else (c # seg) # segs)"

fun join_slash :: "string list \<Rightarrow> string" where
  "join_slash [] = []"
| "join_slash [seg] = seg"
| "join_slash (seg # seg' # segs) = seg @ ''/'' @ join_slash (seg' # segs)"

definition normalize_step :: "bool \<Rightarrow> string list \<Rightarrow> string \<Rightarrow> string list" where
  "normalize_step allowAboveRoot res seg =
     (if seg = [] \<or> seg = ''.'' then res
      else if seg = ''..''
      then (if res \<noteq> [] \<and> last res \<noteq> ''..'' then butlast res
            else if allowAboveRoot then res @ [''..''] else res)
      else res @ [seg])"

definition normalizeString :: "string \<Rightarrow> bool \<Rightarrow> string" where
  "normalizeString p allowAboveRoot =
     join_slash (foldl (normalize_step allowAboveRoot) [] (split_slash p))"

definition path_normalize :: "string \<Rightarrow> string" where
  "path_normalize p =
     (if p = [] then ''.''
      else
        let isAbsolute = (hd p = CHR ''/'');
            trailingSeparator = (last p = CHR ''/'');
            res = normalizeString p (\<not> isAbsolute)
        in if res = []
           then (if isAbsolute then ''/'' else if trailingSeparator then ''./'' else ''.'')
           else (if isAbsolute then ''/'' else []) @ res @ (if trailingSeparator then ''/'' else []))"

definition path_join :: "string \<Rightarrow> string \<Rightarrow> string" where
  "path_join a b =
     (if a = [] \<and> b = [] then ''.''
      else path_normalize (if a = [] then b else if b = [] then a else a @ ''/'' @ b))"

definition hlsUrl :: "string \<Rightarrow> string" where
  "hlsUrl cameraId = ''/hls/'' @ cameraId @ ''/stream.m3u8''"

definition ffmpeg_args :: "stream \<Rightarrow> string \<Rightarrow> string list" where
  "ffmpeg_args s cameraDir =
     [''-rtsp_transport'', ''tcp'',
      ''-analyzeduration'', ''1000000'',
      ''-probesize'', ''1000000'',
      ''-fflags'', ''nobuffer'',
      ''-flags'', ''low_delay'',
      ''-i'', stream_url s,
      ''-c:v'', ''libx264'',
      ''-preset'', ''ultrafast'',
      ''-tune'', ''zerolatency'',
      ''-vf'', ''scale=480:270'',
      ''-b:v'', ''400k'',
      ''-maxrate'', ''500k'',
      ''-bufsize'', ''500k'',
      ''-r'', ''12'',
      ''-g'', ''24'',
      ''-keyint_min'', ''24'',
      ''-sc_threshold'', ''0'',
      ''-profile:v'', ''baseline'',
      ''-level'', ''3.0'',
      ''-c:a'', ''aac'',
      ''-b:a'', ''32k'',
      ''-ar'', ''22050'',
      ''-ac'', ''1'',
      ''-f'', ''hls'',
      ''-hls_time'', ''2'',
      ''-hls_list_size'', ''3'',
      ''-hls_flags'', ''delete_segments+omit_endlist+split_by_time'',
      ''-hls_segment_type'', ''mpegts'',
      ''-start_number'', ''0'',
      ''-hls_allow_cache'', ''0'',
      ''-hls_playlist_type'', ''event'',
      ''-hls_segment_filename'', path_join cameraDir ''segment%d.ts'',
      path_join cameraDir ''stream.m3u8'']"

text \<open>
  The effects a handler performs, each one statement of the source. The file system
  holds a path with or without its trailing slash alike, and \<^verbatim>\<open>mkdirSync\<close> with
  \<^verbatim>\<open>recursive: true\<close> makes the directories above the path as well. The file system and
  the operating system are the environment, and they are taken to do what they are asked:
  that \<^verbatim>\<open>mkdirSync\<close> or \<^verbatim>\<open>spawn\<close> throws (the operating system refuses the directory or
  the process; Node refuses an argument with a NUL character) is not modelled.
\<close>

definition strip_slash :: "string \<Rightarrow> string" where
  "strip_slash p = (if 1 < length p \<and> last p = CHR ''/'' then butlast p else p)"

fun prefixes_at_slash :: "string \<Rightarrow> string \<Rightarrow> string list" where
  "prefixes_at_slash pre [] = [pre]"
| "prefixes_at_slash pre (c # cs) =
     (if c = CHR ''/'' \<and> pre \<noteq> [] then pre # prefixes_at_slash (pre @ [c]) cs
      else prefixes_at_slash (pre @ [c]) cs)"

definition existsSync :: "server \<Rightarrow> string \<Rightarrow> bool" where
  "existsSync st p = (strip_slash p \<in> dirs st)"

definition mkdirSync :: "server \<Rightarrow> string \<Rightarrow> server" where
  "mkdirSync st p =
     st\<lparr>dirs := dirs st \<union> set (map strip_slash (prefixes_at_slash [] p)),
        trace := trace st @ [Mkdir p]\<rparr>"

definition spawn :: "server \<Rightarrow> string list \<Rightarrow> nat \<times> server" where
  "spawn st args =
     (length (children st),
      st\<lparr>children := children st @ [\<lparr>argv = args, listeners = [], signals = []\<rparr>],
         trace := trace st @ [Spawn (length (children st))]\<rparr>)"

definition on :: "server \<Rightarrow> nat \<Rightarrow> event_name \<Rightarrow> string \<Rightarrow> server" where
  "on st h ev cameraId =
     (if h < length (children st)
      then st\<lparr>children := (children st)
                  [h := (children st ! h)\<lparr>listeners := listeners (children st ! h) @ [(ev, cameraId)]\<rparr>],
              trace := trace st @ [Listen h ev]\<rparr>
      else st)"

definition kill :: "server \<Rightarrow> nat \<Rightarrow> string \<Rightarrow> server" where
  "kill st h sig =
     (if h < length (children st)
      then st\<lparr>children := (children st)
                  [h := (children st ! h)\<lparr>signals := signals (children st ! h) @ [sig]\<rparr>],
              trace := trace st @ [Kill h sig]\<rparr>
      else st)"

definition map_set :: "server \<Rightarrow> string \<Rightarrow> nat \<Rightarrow> server" where
  "map_set st cameraId h =
     st\<lparr>activeStreams := (activeStreams st)(cameraId \<mapsto> h), trace := trace st @ [MapSet cameraId h]\<rparr>"

definition map_delete :: "server \<Rightarrow> string \<Rightarrow> server" where
  "map_delete st cameraId =
     st\<lparr>activeStreams := (activeStreams st)(cameraId := None),
        trace := trace st @ [MapDelete cameraId]\<rparr>"

text \<open>\<^verbatim>\<open>app.get('/api/stream/start/:cameraId', ...)\<close>\<close>

definition start :: "stream list \<Rightarrow> server \<Rightarrow> string \<Rightarrow> reply \<times> server" where
  "start streams st cameraId =
     (case find (\<lambda>s. stream_id s = cameraId) streams of
        None \<Rightarrow> (\<lparr>code = 404, json_body = ErrorJson ''Camera not found''\<rparr>, st)
      | Some s \<Rightarrow>
          if activeStreams st cameraId \<noteq> None
          then (\<lparr>code = 200, json_body = StartJson ''already_running'' (hlsUrl cameraId)\<rparr>, st)
          else
            let cameraDir = path_join (hlsDir st) cameraId;
                st1 = (if existsSync st cameraDir then st else mkdirSync st cameraDir);
                (ffmpeg, st2) = spawn st1 (ffmpeg_args s cameraDir);
                st3 = on st2 ffmpeg EvData cameraId;
                st4 = on st3 ffmpeg EvError cameraId;
                st5 = on st4 ffmpeg EvClose cameraId;
                st6 = map_set st5 cameraId ffmpeg
            in (\<lparr>code = 200, json_body = StartJson ''started'' (hlsUrl cameraId)\<rparr>, st6))"

text \<open>\<^verbatim>\<open>app.get('/api/stream/stop/:cameraId', ...)\<close>\<close>

definition stop :: "server \<Rightarrow> string \<Rightarrow> reply \<times> server" where
  "stop st cameraId =
     (case activeStreams st cameraId of
        None \<Rightarrow> (\<lparr>code = 404, json_body = ErrorJson ''Stream not active''\<rparr>, st)
      | Some ffmpeg \<Rightarrow>
          let st1 = kill st ffmpeg ''SIGTERM'';
              st2 = map_delete st1 cameraId
          in (\<lparr>code = 200, json_body = StopJson ''stopped''\<rparr>, st2))"

text \<open>\<^verbatim>\<open>app.get('/api/stream/status/:cameraId', ...)\<close>\<close>

definition stream_status :: "server \<Rightarrow> string \<Rightarrow> reply" where
  "stream_status st cameraId =
     (let isActive = (activeStreams st cameraId \<noteq> None)
      in \<lparr>code = 200,
          json_body = StatusJson isActive (if isActive then Some (hlsUrl cameraId) else None)\<rparr>)"

text \<open>
  A child process emits \<^verbatim>\<open>'error'\<close> (it could not be launched) or \<^verbatim>\<open>'close'\<close> (it has
  ended): the listeners registered for the event run in the order of registration.
\<close>

definition run_listener :: "event_name \<Rightarrow> server \<Rightarrow> event_name \<times> string \<Rightarrow> server" where
  "run_listener ev st l =
     (if fst l = ev \<and> ev \<noteq> EvData then map_delete st (snd l) else st)"

definition emit :: "server \<Rightarrow> nat \<Rightarrow> event_name \<Rightarrow> server" where
  "emit st h ev =
     (if h < length (children st)
      then foldl (run_listener ev) st (listeners (children st ! h))
      else st)"

text \<open>
  The state after the module has been loaded from the directory \<open>dirname\<close> into a file
  system that holds the paths \<open>fs\<close>: no stream, no child, and the \<^verbatim>\<open>hls\<close> directory
  below \<open>dirname\<close>, made if it was missing.
\<close>

definition boot :: "string \<Rightarrow> string set \<Rightarrow> server" where
  "boot dirname fs =
     (let st = \<lparr>activeStreams = Map.empty, children = [], hlsDir = path_join dirname ''hls'',
                dirs = fs, trace = []\<rparr>
      in if existsSync st (hlsDir st) then st else mkdirSync st (hlsDir st))"

text \<open>
  The event loop takes one event at a time and runs its handler to the end before it
  takes the next: requests that arrive together are handled one after the other.
\<close>

datatype event = StartReq string | StopReq string | StatusReq string | ChildEvent nat event_name

fun handle :: "stream list \<Rightarrow> server \<Rightarrow> event \<Rightarrow> reply option \<times> server" where
  "handle streams st (StartReq c) = (case start streams st c of (r, st') \<Rightarrow> (Some r, st'))"
| "handle streams st (StopReq c) = (case stop st c of (r, st') \<Rightarrow> (Some r, st'))"
| "handle streams st (StatusReq c) = (Some (stream_status st c), st)"
| "handle streams st (ChildEvent h ev) = (None, emit st h ev)"

fun run_loop :: "stream list \<Rightarrow> server \<Rightarrow> event list \<Rightarrow> reply option list \<times> server" where
  "run_loop streams st [] = ([], st)"
| "run_loop streams st (e # es) =
     (case handle streams st e of
        (r, st') \<Rightarrow> (case run_loop streams st' es of (rs, st'') \<Rightarrow> (r # rs, st'')))"

section \<open>Reference definitions and examples\<close>

text \<open>
  The \<^verbatim>\<open>Authorization\<close> header as the specification writes it (its step 6), with the
  computed fields as arguments.
\<close>

definition spec_authorization ::
  "string \<Rightarrow> string \<Rightarrow> string \<Rightarrow> string \<Rightarrow> string \<Rightarrow> string \<Rightarrow> string \<Rightarrow> string \<Rightarrow> string"
where
  \<open>spec_authorization user realm nonce uri resp qop nc cnonce =
     ''Digest username="'' @ user @ ''", realm="'' @ realm @ ''", nonce="'' @ nonce
       @ ''", uri="'' @ uri @ ''", algorithm=MD5, response="'' @ resp
       @ ''", qop='' @ qop @ '', nc='' @ nc @ '', cnonce="'' @ cnonce @ ''"''\<close>

text \<open>
  The example of the specification's digest round trip: the challenge
  \<^verbatim>\<open>{realm:"R", nonce:"N", qop:"auth"}\<close>, \<^verbatim>\<open>GET\<close>, \<^verbatim>\<open>/axis-cgi/com/ptz.cgi?pan=1\<close>, user
  \<^verbatim>\<open>u\<close>, password \<^verbatim>\<open>p\<close>, and the random bytes that print as \<^verbatim>\<open>0123456789abcdef\<close>.
\<close>

definition example_rnd :: "byte list" where
  "example_rnd = [0x01, 0x23, 0x45, 0x67, 0x89, 0xab, 0xcd, 0xef]"

definition example_params :: params where
  "example_params = [''realm'' \<mapsto> ''R'', ''nonce'' \<mapsto> ''N'', ''qop'' \<mapsto> ''auth'']"

definition sha256_params :: params where
  "sha256_params =
     [''realm'' \<mapsto> ''R'', ''nonce'' \<mapsto> ''N'', ''qop'' \<mapsto> ''auth'', ''algorithm'' \<mapsto> ''SHA-256'']"

definition example_url :: url where
  "example_url =
     \<lparr>href = ''http://192.168.0.90/axis-cgi/com/ptz.cgi?pan=1'',
      pathname = ''/axis-cgi/com/ptz.cgi'', search = ''?pan=1''\<rparr>"

definition example_options :: options where
  "example_options =
     \<lparr>opt_method = None, opt_headers = None, username = Some ''u'', password = Some ''p'',
      fetchOptions = []\<rparr>"

text \<open>The same call with a line feed in the username.\<close>

definition line_feed_options :: options where
  "line_feed_options = example_options\<lparr>username := Some (''u'' @ [CHR 0x0A] @ ''x'')\<rparr>"

text \<open>
  A camera that answers the first request with 401 and the given challenge, and every
  later request with the given status.
\<close>

definition challenge_network :: "string option \<Rightarrow> nat \<Rightarrow> network" where
  "challenge_network challenge second sent req =
     (if sent = []
      then Inr \<lparr>status = 401,
                headers = (\<lambda>name. if name = ''www-authenticate'' then challenge else None),
                body = []\<rparr>
      else Inr \<lparr>status = second, headers = Map.empty, body = ''ok''\<rparr>)"

text \<open>A server that answers every request with the given status and no challenge.\<close>

definition plain_network :: "nat \<Rightarrow> network" where
  "plain_network first sent req = Inr \<lparr>status = first, headers = Map.empty, body = ''ok''\<rparr>"

text \<open>A camera list in the format of the repository's \<^verbatim>\<open>README\<close>.\<close>

definition example_streams :: "stream list" where
  "example_streams =
     [\<lparr>stream_id = ''cambox11'', stream_name = ''SALA 1 CAMBOX11 DOMO'',
       stream_url = ''rtsp://CAMBOX11.uv.es/axis-media/media.amp'', stream_group = ''SALA 1''\<rparr>,
      \<lparr>stream_id = ''cambox12'', stream_name = ''SALA 1 CAMBOX12 FIJA'',
       stream_url = ''rtsp://CAMBOX12.uv.es/axis-media/media.amp'', stream_group = ''SALA 1''\<rparr>]"

text \<open>
  The server loaded from \<^verbatim>\<open>/srv/multiview\<close>, where the \<^verbatim>\<open>hls\<close> directory exists.
\<close>

definition example_boot :: server where
  "example_boot =
     boot ''/srv/multiview'' {''/'', ''/srv'', ''/srv/multiview'', ''/srv/multiview/hls''}"

text \<open>
  For two start requests of one camera \<open>c\<close> with other events between them. A child was
  spawned for \<open>c\<close> when its listeners hold \<open>c\<close>; \<open>spawned_for\<close> lists these children.
  With \<open>chs\<close> the children at the first request, whose child will be number
  \<open>length chs\<close>, the other events are those that are neither a start or stop request for
  \<open>c\<close> nor an event of a child spawned for \<open>c\<close>, be it the new child or an earlier one.
\<close>

definition listens_for :: "string \<Rightarrow> child \<Rightarrow> bool" where
  "listens_for c ch = (c \<in> snd ` set (listeners ch))"

definition spawned_for :: "string \<Rightarrow> server \<Rightarrow> nat list" where
  "spawned_for c st = filter (\<lambda>i. listens_for c (children st ! i)) [0..<length (children st)]"

fun other_event :: "string \<Rightarrow> child list \<Rightarrow> event \<Rightarrow> bool" where
  "other_event c chs (StartReq c') = (c' \<noteq> c)"
| "other_event c chs (StopReq c') = (c' \<noteq> c)"
| "other_event c chs (StatusReq c') = True"
| "other_event c chs (ChildEvent h ev) =
     (length chs < h \<or> (h < length chs \<and> \<not> listens_for c (chs ! h)))"

text \<open>
  What holds between the two requests: \<open>c\<close> is registered with child \<open>length chs\<close>, the
  earlier children have the listeners they had, and no later child was spawned for \<open>c\<close>.
\<close>

definition session_inv :: "string \<Rightarrow> child list \<Rightarrow> server \<Rightarrow> bool" where
  "session_inv c chs st =
     (activeStreams st c = Some (length chs) \<and> length chs < length (children st)
      \<and> (\<forall>i < length chs. listeners (children st ! i) = listeners (chs ! i))
      \<and> listens_for c (children st ! length chs)
      \<and> (\<forall>i. length chs < i \<and> i < length (children st) \<longrightarrow> \<not> listens_for c (children st ! i)))"

text \<open>
  A challenge made of quoted pairs, \<^verbatim>\<open>k1="v1", k2="v2", ...\<close>, each key of word
  characters and other than \<^verbatim>\<open>__proto__\<close>, each value non-empty and free of quotes.
\<close>

fun render_pairs :: "(string \<times> string) list \<Rightarrow> string" where
  "render_pairs [] = []"
| "render_pairs [(k, v)] = k @ ''='' @ [dq] @ v @ [dq]"
| "render_pairs ((k, v) # p # ps) = k @ ''='' @ [dq] @ v @ [dq] @ '', '' @ render_pairs (p # ps)"

definition quoted_pair :: "string \<times> string \<Rightarrow> bool" where
  "quoted_pair kv =
     (fst kv \<noteq> [] \<and> list_all (in_cls Word) (fst kv) \<and> fst kv \<noteq> ''__proto__''
      \<and> snd kv \<noteq> [] \<and> dq \<notin> set (snd kv))"

section \<open>Auxiliary lemmas\<close>

subsection \<open>The loop of \<open>parseDigestHeader\<close> ends\<close>

text \<open>
  Every match of the expression consumes at least one character, so each turn of
  \<open>match_loop\<close> continues on a shorter input.
\<close>

lemma plus_cls_shorter: "rest \<in> set (plus_cls k s) \<Longrightarrow> length rest < length s"
  by (induction s) (auto split: if_splits)

lemma rmatch_min_len:
  "(rest, caps') \<in> set (rmatch r s caps) \<Longrightarrow> length rest + min_len r \<le> length s"
proof (induction r arbitrary: s caps rest caps')
  case (Lit x)
  then show ?case by (auto split: list.splits if_splits)
next
  case (Plus k)
  then show ?case using plus_cls_shorter [of rest k s] by auto
next
  case (Seq r1 r2)
  from Seq.prems obtain mid caps1 where
    m1: "(mid, caps1) \<in> set (rmatch r1 s caps)" and
    m2: "(rest, caps') \<in> set (rmatch r2 mid caps1)"
    by auto
  from Seq.IH(1) [OF m1] Seq.IH(2) [OF m2] show ?case by simp
next
  case (Alt r1 r2)
  then show ?case by fastforce
next
  case (Group i r)
  then show ?case by fastforce
qed

lemma regex_exec_shorter:
  "regex_exec r s = Some (caps, rest) \<Longrightarrow> 0 < min_len r \<Longrightarrow> length rest < length s"
proof (induction s)
  case Nil
  then show ?case
    using rmatch_min_len [of rest caps r "[]" Map.empty]
    by (auto split: list.splits)
next
  case (Cons c cs)
  show ?case
  proof (cases "rmatch r (c # cs) Map.empty")
    case Nil
    with Cons show ?thesis by simp
  next
    case (Cons m ms)
    with Cons.prems have "(rest, caps) \<in> set (rmatch r (c # cs) Map.empty)"
      by (auto split: prod.splits)
    from rmatch_min_len [OF this] Cons.prems(2) show ?thesis by simp
  qed
qed

termination match_loop
proof (relation "measure (\<lambda>(s, ps). length s)")
  show "wf (measure (\<lambda>(s, ps). length s))" by simp
next
  fix s :: string and ps :: params and x2 x y and raw :: string
  assume "regex_exec digest_regex s = Some x2" and "(x, y) = x2"
  then have "regex_exec digest_regex s = Some (x, y)" by simp
  from regex_exec_shorter [OF this] have "length y < length s"
    by (simp add: digest_regex_def)
  then show "((y, set_prop ps (interp (x 1)) (unquote (trim raw))), s, ps)
      \<in> measure (\<lambda>(s, ps). length s)"
    by simp
qed

declare match_loop.simps [simp del]

subsection \<open>The stream server\<close>

lemmas effect_defs = mkdirSync_def spawn_def on_def kill_def map_set_def map_delete_def

lemma start_fresh:
  assumes "find (\<lambda>s. stream_id s = c) streams = Some s" and "activeStreams st c = None"
  shows "fst (start streams st c) = \<lparr>code = 200, json_body = StartJson ''started'' (hlsUrl c)\<rparr>"
    and "activeStreams (snd (start streams st c)) = (activeStreams st)(c \<mapsto> length (children st))"
    and "length (children (snd (start streams st c))) = Suc (length (children st))"
  using assms by (simp_all add: start_def effect_defs Let_def)

lemma start_running:
  assumes "find (\<lambda>s. stream_id s = c) streams = Some s" and "activeStreams st c = Some h"
  shows "start streams st c
           = (\<lparr>code = 200, json_body = StartJson ''already_running'' (hlsUrl c)\<rparr>, st)"
  using assms by (simp add: start_def)

lemma start_fresh_child:
  assumes "find (\<lambda>s. stream_id s = c) streams = Some s" and "activeStreams st c = None"
  shows "children (snd (start streams st c))
           = children st @ [\<lparr>argv = ffmpeg_args s (path_join (hlsDir st) c),
                               listeners = [(EvData, c), (EvError, c), (EvClose, c)],
                               signals = []\<rparr>]"
  using assms by (simp add: start_def effect_defs Let_def)

lemma emit_last_child:
  assumes "children st = cs @ [ch]" and "listeners ch = [(EvData, c), (EvError, c), (EvClose, c)]"
    and "ev \<noteq> EvData"
  shows "emit st (length cs) ev = map_delete st c"
  using assms by (cases ev) (simp_all add: emit_def run_listener_def)

lemma stop_running:
  assumes "activeStreams st c = Some h"
  shows "stop st c
          = (\<lparr>code = 200, json_body = StopJson ''stopped''\<rparr>, map_delete (kill st h ''SIGTERM'') c)"
  using assms by (simp add: stop_def)

lemma start_trace:
  assumes "find (\<lambda>s. stream_id s = c) streams = Some s" and "activeStreams st c = None"
  shows "trace (snd (start streams st c))
           = trace st
             @ (if existsSync st (path_join (hlsDir st) c) then []
                else [Mkdir (path_join (hlsDir st) c)])
             @ [Spawn (length (children st)),
                Listen (length (children st)) EvData,
                Listen (length (children st)) EvError,
                Listen (length (children st)) EvClose,
                MapSet c (length (children st))]"
  using assms by (simp add: start_def effect_defs Let_def)

lemma foldl_run_listener_children:
  "children (foldl (run_listener ev) st ls) = children st"
  by (induction ls arbitrary: st) (simp_all add: run_listener_def map_delete_def)

lemma foldl_run_listener_other:
  "c \<notin> snd ` set ls \<Longrightarrow> activeStreams (foldl (run_listener ev) st ls) c = activeStreams st c"
  by (induction ls arbitrary: st) (auto simp add: run_listener_def map_delete_def)

lemma emit_children: "children (emit st h ev) = children st"
  by (simp add: emit_def foldl_run_listener_children)

lemma emit_other:
  assumes "session_inv c chs st"
    and "length chs < h \<or> (h < length chs \<and> \<not> listens_for c (chs ! h))"
  shows "session_inv c chs (emit st h ev)"
proof (cases "h < length (children st)")
  case True
  with assms have "\<not> listens_for c (children st ! h)"
    by (auto simp add: session_inv_def listens_for_def)
  then have "c \<notin> snd ` set (listeners (children st ! h))"
    by (simp add: listens_for_def)
  from foldl_run_listener_other [OF this, of ev st] True
  have "activeStreams (emit st h ev) c = activeStreams st c"
    by (simp add: emit_def)
  with assms(1) show ?thesis
    by (simp add: session_inv_def emit_children)
next
  case False
  with assms(1) show ?thesis by (simp add: emit_def)
qed

lemma start_other:
  assumes "session_inv c chs st" and "c' \<noteq> c"
  shows "session_inv c chs (snd (start streams st c'))"
  using assms
  by (auto simp add: start_def session_inv_def effect_defs Let_def listens_for_def nth_append
      nth_list_update split: option.splits if_splits)

lemma stop_other:
  assumes "session_inv c chs st" and "c' \<noteq> c"
  shows "session_inv c chs (snd (stop st c'))"
  using assms
  by (auto simp add: stop_def session_inv_def effect_defs Let_def listens_for_def nth_list_update
      split: option.splits if_splits)

lemma handle_other:
  assumes "session_inv c chs st" and "other_event c chs e"
  shows "session_inv c chs (snd (handle streams st e))"
  using assms
  by (cases e) (auto simp add: start_other stop_other emit_other split: prod.splits
      dest: start_other [where streams = streams] stop_other)

lemma run_loop_Cons:
  "run_loop streams st (e # es)
     = (fst (handle streams st e) # fst (run_loop streams (snd (handle streams st e)) es),
        snd (run_loop streams (snd (handle streams st e)) es))"
  by (simp add: case_prod_beta)

lemma run_loop_append:
  "run_loop streams st (es @ es')
     = (fst (run_loop streams st es) @ fst (run_loop streams (snd (run_loop streams st es)) es'),
        snd (run_loop streams (snd (run_loop streams st es)) es'))"
  by (induction es arbitrary: st) (simp_all add: case_prod_beta)

lemma run_loop_other:
  assumes "session_inv c chs st" and "list_all (other_event c chs) es"
  shows "session_inv c chs (snd (run_loop streams st es))"
  using assms
proof (induction es arbitrary: st)
  case Nil
  then show ?case by simp
next
  case (Cons e es)
  from Cons.prems have "session_inv c chs (snd (handle streams st e))"
    by (simp add: handle_other)
  from Cons.IH [OF this] Cons.prems(2) show ?case
    by (simp add: run_loop_Cons del: run_loop.simps)
qed

lemma start_establishes_inv:
  assumes known: "find (\<lambda>s. stream_id s = c) streams = Some s"
    and fresh: "activeStreams st c = None"
  shows "session_inv c (children st) (snd (start streams st c))"
  using assms
  by (auto simp add: start_def session_inv_def effect_defs Let_def listens_for_def nth_append)

lemma session_inv_spawned_for:
  assumes "session_inv c chs st"
  shows "spawned_for c st
           = filter (\<lambda>i. listens_for c (chs ! i)) [0..<length chs] @ [length chs]"
proof -
  let ?n = "length chs" and ?m = "length (children st)"
  let ?P = "\<lambda>i. listens_for c (children st ! i)"
  from assms have lt: "?n < ?m" by (simp add: session_inv_def)
  then have "[0..<?m] = [0..<?n] @ [?n] @ [Suc ?n..<?m]"
    by (metis Suc_leI le0 upt_add_eq_append upt_conv_Cons upt_rec append_Cons append_Nil
        le_add_diff_inverse less_imp_le_nat)
  then have "spawned_for c st = filter ?P [0..<?n] @ filter ?P [?n] @ filter ?P [Suc ?n..<?m]"
    by (simp add: spawned_for_def)
  moreover from assms have "filter ?P [0..<?n] = filter (\<lambda>i. listens_for c (chs ! i)) [0..<?n]"
    by (intro filter_cong) (simp_all add: session_inv_def listens_for_def)
  moreover from assms have "filter ?P [?n] = [?n]"
    by (simp add: session_inv_def)
  moreover from assms have "filter ?P [Suc ?n..<?m] = []"
    by (simp add: session_inv_def filter_empty_conv)
  ultimately show ?thesis by simp
qed

text \<open>
  The listeners of a child delete the entry of their camera, whichever child the entry
  names: after a stop and a new start, the \<^verbatim>\<open>'close'\<close> of the stopped child removes the
  entry of the new one, so that one more start request spawns a third child.
\<close>

lemma run_listener_None:
  "activeStreams st c = None \<Longrightarrow> activeStreams (run_listener ev st l) c = None"
  by (simp add: run_listener_def map_delete_def)

lemma foldl_run_listener_deletes:
  "(ev, c) \<in> set ls \<Longrightarrow> ev \<noteq> EvData \<Longrightarrow> activeStreams (foldl (run_listener ev) st ls) c = None"
proof (induction ls arbitrary: st rule: rev_induct)
  case Nil
  then show ?case by simp
next
  case (snoc l ls)
  show ?case
  proof (cases "l = (ev, c)")
    case True
    with snoc.prems show ?thesis by (simp add: run_listener_def map_delete_def)
  next
    case False
    with snoc.prems have "(ev, c) \<in> set ls" by simp
    from snoc.IH [OF this snoc.prems(2), of st] show ?thesis
      by (simp add: run_listener_None)
  qed
qed

lemma stale_close_restart:
  assumes known: "find (\<lambda>s. stream_id s = c) streams = Some s"
    and fresh: "activeStreams st c = None"
    and old: "h < length (children st)" "(ev, c) \<in> set (listeners (children st ! h))"
    and ev: "ev \<noteq> EvData"
  shows "fst (run_loop streams st [StartReq c, ChildEvent h ev, StartReq c])
           = [Some \<lparr>code = 200, json_body = StartJson ''started'' (hlsUrl c)\<rparr>, None,
              Some \<lparr>code = 200, json_body = StartJson ''started'' (hlsUrl c)\<rparr>]"
    and "length (children (snd (run_loop streams st [StartReq c, ChildEvent h ev, StartReq c])))
           = length (children st) + 2"
proof -
  let ?st1 = "snd (start streams st c)"
  let ?st2 = "emit ?st1 h ev"
  have c1: "children ?st1 ! h = children st ! h" and l1: "h < length (children ?st1)"
    using old(1) by (simp_all add: start_fresh_child [OF known fresh] nth_append)
  with old(2) have "(ev, c) \<in> set (listeners (children ?st1 ! h))" by simp
  from foldl_run_listener_deletes [OF this ev, of ?st1] l1
  have a2: "activeStreams ?st2 c = None"
    by (simp add: emit_def)
  have l2: "length (children ?st2) = Suc (length (children st))"
    by (simp add: emit_children start_fresh(3) [OF known fresh])
  note f1 = start_fresh [OF known fresh] and f2 = start_fresh [OF known a2]
  show "fst (run_loop streams st [StartReq c, ChildEvent h ev, StartReq c])
           = [Some \<lparr>code = 200, json_body = StartJson ''started'' (hlsUrl c)\<rparr>, None,
              Some \<lparr>code = 200, json_body = StartJson ''started'' (hlsUrl c)\<rparr>]"
    by (simp add: case_prod_beta f1(1) f2(1))
  show "length (children (snd (run_loop streams st [StartReq c, ChildEvent h ev, StartReq c])))
           = length (children st) + 2"
    by (simp add: case_prod_beta f2(3) l2)
qed

text \<open>The example server and the paths of \<^verbatim>\<open>cambox11\<close>.\<close>

lemma example_boot_eq:
  "example_boot
     = \<lparr>activeStreams = Map.empty, children = [], hlsDir = ''/srv/multiview/hls'',
        dirs = {''/'', ''/srv'', ''/srv/multiview'', ''/srv/multiview/hls''}, trace = []\<rparr>"
  by (simp add: example_boot_def boot_def path_join_def path_normalize_def normalizeString_def
      normalize_step_def existsSync_def strip_slash_def Let_def)

lemma example_cameraDir:
  "path_join ''/srv/multiview/hls'' ''cambox11'' = ''/srv/multiview/hls/cambox11''"
  by (simp add: path_join_def path_normalize_def normalizeString_def normalize_step_def Let_def)

text \<open>
  \<^verbatim>\<open>path.join\<close> on identifiers that are not plain names, and a camera called \<^verbatim>\<open>.\<close>, whose
  directory is \<^verbatim>\<open>hls\<close> itself: \<open>start\<close> finds it and makes no directory.
\<close>

lemma path_join_examples:
  "path_join ''/srv/multiview/hls'' ''.'' = ''/srv/multiview/hls''"
  "path_join ''/srv/multiview/hls'' ''..'' = ''/srv/multiview''"
  "path_join ''/srv/multiview/hls'' ''../../../../etc'' = ''/etc''"
  "path_join ''/srv/multiview/hls'' ''a//b/./c/'' = ''/srv/multiview/hls/a/b/c/''"
  "path_join ''hls'' ''../..'' = ''..''"
  "path_join ''hls'' ''../'' = ''./''"
  by (simp_all add: path_join_def path_normalize_def normalizeString_def normalize_step_def
      Let_def)

lemma start_dot_camera:
  "trace (snd (start [\<lparr>stream_id = ''.'', stream_name = ''dot'', stream_url = ''rtsp://camera'',
                         stream_group = []\<rparr>] example_boot ''.''))
     = [Spawn 0, Listen 0 EvData, Listen 0 EvError, Listen 0 EvClose, MapSet ''.'' 0]"
  by (simp add: example_boot_eq start_def effect_defs Let_def path_join_examples
      existsSync_def strip_slash_def)

text \<open>
  On the example server: \<^verbatim>\<open>cambox11\<close> is started and stopped, then started again; the
  \<^verbatim>\<open>'close'\<close> of the stopped child, number 0, arrives; one more start request answers
  \<open>started\<close> and there are three children.
\<close>

lemma stale_close_example:
  "fst (run_loop example_streams
          (snd (stop (snd (start example_streams example_boot ''cambox11'')) ''cambox11''))
          [StartReq ''cambox11'', ChildEvent 0 EvClose, StartReq ''cambox11''])
     = [Some \<lparr>code = 200, json_body = StartJson ''started'' (hlsUrl ''cambox11'')\<rparr>, None,
        Some \<lparr>code = 200, json_body = StartJson ''started'' (hlsUrl ''cambox11'')\<rparr>]"
  "length (children (snd (run_loop example_streams
          (snd (stop (snd (start example_streams example_boot ''cambox11'')) ''cambox11''))
          [StartReq ''cambox11'', ChildEvent 0 EvClose, StartReq ''cambox11'']))) = 3"
proof -
  let ?st1 = "snd (start example_streams example_boot ''cambox11'')"
  let ?st = "snd (stop ?st1 ''cambox11'')"
  have k: "find (\<lambda>s. stream_id s = ''cambox11'') example_streams = Some (hd example_streams)"
    by (simp add: example_streams_def)
  have b: "activeStreams example_boot ''cambox11'' = None" "children example_boot = []"
    by (simp_all add: example_boot_eq)
  have a1: "activeStreams ?st1 ''cambox11'' = Some 0"
    using start_fresh(2) [OF k b(1)] b(2) by simp
  have c1: "listeners (children ?st1 ! 0)
              = [(EvData, ''cambox11''), (EvError, ''cambox11''), (EvClose, ''cambox11'')]"
    and l1: "length (children ?st1) = 1"
    using start_fresh_child [OF k b(1)] b(2) by simp_all
  have st: "?st = map_delete (kill ?st1 0 ''SIGTERM'') ''cambox11''"
    by (simp add: stop_running [OF a1])
  have f: "activeStreams ?st ''cambox11'' = None"
    and l: "length (children ?st) = 1"
    and o: "(EvClose, ''cambox11'') \<in> set (listeners (children ?st ! 0))"
    by (simp_all add: st map_delete_def kill_def l1 c1)
  from l have o1: "0 < length (children ?st)" by simp
  note t = stale_close_restart [OF k f o1 o]
  from t(1) show "fst (run_loop example_streams ?st
          [StartReq ''cambox11'', ChildEvent 0 EvClose, StartReq ''cambox11''])
     = [Some \<lparr>code = 200, json_body = StartJson ''started'' (hlsUrl ''cambox11'')\<rparr>, None,
        Some \<lparr>code = 200, json_body = StartJson ''started'' (hlsUrl ''cambox11'')\<rparr>]"
    by simp
  from t(2) l show "length (children (snd (run_loop example_streams ?st
          [StartReq ''cambox11'', ChildEvent 0 EvClose, StartReq ''cambox11'']))) = 3"
    by simp
qed

subsection \<open>The parser\<close>

lemma regex_exec_in:
  "regex_exec r s = Some (caps, rest) \<Longrightarrow> \<exists>s'. (rest, caps) \<in> set (rmatch r s' Map.empty)"
proof (induction s)
  case Nil
  then show ?case by (auto split: list.splits intro: exI [of _ "[]"])
next
  case (Cons c cs)
  show ?case
  proof (cases "rmatch r (c # cs) Map.empty")
    case Nil
    with Cons show ?thesis by simp
  next
    case (Cons m ms)
    with Cons.prems have "(rest, caps) \<in> set (rmatch r (c # cs) Map.empty)"
      by (auto split: prod.splits)
    then show ?thesis by blast
  qed
qed

lemma digest_regex_groups:
  "(rest, caps) \<in> set (rmatch digest_regex s c0) \<Longrightarrow> caps 1 \<noteq> None \<and> caps 2 \<noteq> None"
  by (auto simp add: digest_regex_def)

lemma match_loop_succeeds: "\<exists>ps'. match_loop s ps = Inr ps'"
proof (induction s ps rule: match_loop.induct)
  case (1 s ps)
  show ?case
  proof (cases "regex_exec digest_regex s")
    case None
    then show ?thesis by (simp add: match_loop.simps)
  next
    case (Some m)
    obtain caps rest where m: "m = (caps, rest)" by (cases m)
    from regex_exec_in Some m obtain s' where
      "(rest, caps) \<in> set (rmatch digest_regex s' Map.empty)" by blast
    from digest_regex_groups [OF this] obtain raw where raw: "caps 2 = Some raw" by auto
    from "1.IH" [OF Some m [symmetric] raw] Some m raw show ?thesis
      by (simp add: match_loop.simps [of s])
  qed
qed

lemma plus_cls_all:
  assumes "xs \<noteq> []" and "\<forall>c \<in> set xs. in_cls k c" and "rest = [] \<or> \<not> in_cls k (hd rest)"
  shows "\<exists>more. plus_cls k (xs @ rest) = rest # more"
  using assms
proof (induction xs)
  case Nil
  then show ?case by simp
next
  case (Cons x xs)
  show ?case
  proof (cases "xs = []")
    case True
    from Cons.prems(3) have "plus_cls k rest = []" by (cases rest) auto
    with True Cons.prems(2) show ?thesis by simp
  next
    case False
    with Cons obtain more where "plus_cls k (xs @ rest) = rest # more" by auto
    with Cons.prems(2) show ?thesis by simp
  qed
qed

lemma rmatch_quoted_pair:
  assumes k: "k \<noteq> []" "\<forall>c \<in> set k. in_cls Word c"
    and v: "v \<noteq> []" "dq \<notin> set v"
  shows "\<exists>more. rmatch digest_regex (k @ CHR ''='' # dq # v @ dq # rest) Map.empty
           = (rest, [1 \<mapsto> k, 2 \<mapsto> dq # v @ [dq]]) # more"
proof -
  obtain m1 where p1: "plus_cls Word (k @ CHR ''='' # dq # v @ dq # rest)
                        = (CHR ''='' # dq # v @ dq # rest) # m1"
    using plus_cls_all [OF k, of "CHR ''='' # dq # v @ dq # rest"] by auto
  obtain m2 where p2: "plus_cls (NotChr dq) (v @ dq # rest) = (dq # rest) # m2"
    using plus_cls_all [of v "NotChr dq" "dq # rest"] v by auto
  show ?thesis
    by (simp add: digest_regex_def p1 p2)
qed

lemma regex_exec_quoted_pair:
  assumes k: "k \<noteq> []" "\<forall>c \<in> set k. in_cls Word c"
    and v: "v \<noteq> []" "dq \<notin> set v"
  shows "regex_exec digest_regex (k @ CHR ''='' # dq # v @ dq # rest)
           = Some ([1 \<mapsto> k, 2 \<mapsto> dq # v @ [dq]], rest)"
proof -
  from rmatch_quoted_pair [OF k v] obtain more where
    m: "rmatch digest_regex (k @ CHR ''='' # dq # v @ dq # rest) Map.empty
           = (rest, [1 \<mapsto> k, 2 \<mapsto> dq # v @ [dq]]) # more"
    by blast
  from k(1) obtain c cs where "k = c # cs" by (cases k) auto
  with m show ?thesis by simp
qed

lemma unquote_trim_quoted:
  assumes "dq \<notin> set v"
  shows "unquote (trim (dq # v @ [dq])) = v"
proof -
  have "\<not> is_space dq" by (simp add: is_space_def dq_def)
  then have "trim (dq # v @ [dq]) = dq # v @ [dq]"
    by (simp add: trim_def)
  then show ?thesis by (simp add: unquote_def)
qed

lemma match_loop_quoted_pair:
  assumes k: "k \<noteq> []" "\<forall>c \<in> set k. in_cls Word c"
    and v: "v \<noteq> []" "dq \<notin> set v"
  shows "match_loop (k @ CHR ''='' # dq # v @ dq # rest) ps = match_loop rest (set_prop ps k v)"
  by (subst match_loop.simps)
    (simp add: regex_exec_quoted_pair [OF k v] unquote_trim_quoted [OF v(2)] interp_def)

lemma match_loop_skip:
  assumes "\<not> in_cls Word c"
  shows "match_loop (c # s) ps = match_loop s ps"
proof -
  from assms have "regex_exec digest_regex (c # s) = regex_exec digest_regex s"
    by (simp add: digest_regex_def)
  then show ?thesis
    by (simp add: match_loop.simps [of "c # s"] match_loop.simps [of s])
qed

lemma match_loop_Nil: "match_loop [] ps = Inr ps"
  by (simp add: match_loop.simps [of "[]"] digest_regex_def)

lemma map_add_upd_rev: "ps(k \<mapsto> v) ++ map_of xs = ps ++ map_of (xs @ [(k, v)])"
  by (auto simp add: map_add_def fun_eq_iff split: option.splits)

lemma match_loop_pairs:
  "list_all quoted_pair pairs \<Longrightarrow>
     match_loop (render_pairs pairs) ps = Inr (ps ++ map_of (rev pairs))"
proof (induction pairs arbitrary: ps rule: render_pairs.induct)
  case 1
  show ?case by (simp add: match_loop_Nil)
next
  case (2 k v)
  then have w: "k \<noteq> []" "\<forall>c \<in> set k. in_cls Word c" "v \<noteq> []" "dq \<notin> set v" "k \<noteq> ''__proto__''"
    by (simp_all add: quoted_pair_def list_all_iff)
  from match_loop_quoted_pair [OF w(1-4), of "[]" ps] w(5) show ?case
    by (auto simp add: match_loop_Nil set_prop_def map_add_def fun_eq_iff)
next
  case (3 k v p pairs)
  then have w: "k \<noteq> []" "\<forall>c \<in> set k. in_cls Word c" "v \<noteq> []" "dq \<notin> set v" "k \<noteq> ''__proto__''"
    and rest: "list_all quoted_pair (p # pairs)"
    by (simp_all add: quoted_pair_def list_all_iff)
  have "match_loop (render_pairs ((k, v) # p # pairs)) ps
          = match_loop ('', '' @ render_pairs (p # pairs)) (set_prop ps k v)"
    using match_loop_quoted_pair [OF w(1-4), of "'', '' @ render_pairs (p # pairs)" ps] by simp
  also have "\<dots> = match_loop (render_pairs (p # pairs)) (ps(k \<mapsto> v))"
    using w(5) by (simp add: match_loop_skip set_prop_def)
  also have "\<dots> = Inr (ps(k \<mapsto> v) ++ map_of (rev (p # pairs)))"
    by (rule "3.IH" [OF rest])
  also have "\<dots> = Inr (ps ++ map_of (rev ((k, v) # p # pairs)))"
    using map_add_upd_rev [of ps k v "rev (p # pairs)"] by simp
  finally show ?case .
qed

lemmas parse_eval = parseDigestHeader_def match_loop.simps digest_regex_def set_prop_def
  unquote_def trim_def is_space_def interp_def dq_def

lemma parse_without_nonce:
  \<open>parseDigestHeader (Some ''Digest realm="R", qop="auth"'')
     = Inr [''realm'' \<mapsto> ''R'', ''qop'' \<mapsto> ''auth'']\<close>
  by (simp add: parse_eval)

lemma parse_example_challenge:
  \<open>parseDigestHeader (Some ''Digest realm="R", nonce="N", qop="auth"'') = Inr example_params\<close>
  by (simp add: parse_eval example_params_def)

subsection \<open>Hash values\<close>

text \<open>
  Hash values are computed by running the definitions. A 32-bit numeral is brought back
  below \<open>2 ^ 32\<close> after every operation of a round (\<open>word_of_nat (unat x) = x\<close>), which
  keeps the numerals of the computation short.
\<close>

lemma replicate_numeral_unfold: "replicate (numeral k) x = x # replicate (pred_numeral k) x"
  by (simp add: numeral_eq_Suc)

lemma md5_round_eval:
  "md5_round m (a, b, c, d) (i, s, k) =
     (d, word_of_nat (unat (b + rotl (word_of_nat (unat (md5_F i b c d + a + k + m ! md5_g i))) s)),
      b, c)"
  by simp

lemma md5_add_eval:
  "md5_add (a0, b0, c0, d0) (a, b, c, d) =
     (word_of_nat (unat (a0 + a)), word_of_nat (unat (b0 + b)),
      word_of_nat (unat (c0 + c)), word_of_nat (unat (d0 + d)))"
  by simp

lemma sha256_round_eval:
  "sha256_round (a, b, c, d, e, f, g, h) (k, w) =
     (let t1 = word_of_nat (unat (h + (rotr e 6 XOR rotr e 11 XOR rotr e 25)
                  + ((e AND f) XOR (NOT e AND g)) + k + w));
          t2 = word_of_nat (unat ((rotr a 2 XOR rotr a 13 XOR rotr a 22)
                  + ((a AND b) XOR (a AND c) XOR (b AND c))))
      in (word_of_nat (unat (t1 + t2)), a, b, c, word_of_nat (unat (d + t1)), e, f, g))"
  by (simp add: Let_def)

lemma sha256_add_eval:
  "sha256_add (a0, b0, c0, d0, e0, f0, g0, h0) (a, b, c, d, e, f, g, h) =
     (word_of_nat (unat (a0 + a)), word_of_nat (unat (b0 + b)), word_of_nat (unat (c0 + c)),
      word_of_nat (unat (d0 + d)), word_of_nat (unat (e0 + e)), word_of_nat (unat (f0 + f)),
      word_of_nat (unat (g0 + g)), word_of_nat (unat (h0 + h)))"
  by simp

lemma sha256_extend_eval:
  "sha256_extend w i =
     w @ [word_of_nat (unat (w ! (i - 16)
          + (rotr (w ! (i - 15)) 7 XOR rotr (w ! (i - 15)) 18 XOR drop_bit 3 (w ! (i - 15)))
          + w ! (i - 7)
          + (rotr (w ! (i - 2)) 17 XOR rotr (w ! (i - 2)) 19 XOR drop_bit 10 (w ! (i - 2)))))]"
  by (simp add: sha256_extend_def)

lemmas md5_eval = md5_def utf8_def md5_bytes_def md5_pad_def u64_bytes_def md5_blocks.simps
  md5_block_def md5_K_def md5_S_def md5_F_def md5_g_def rotl_def to_hex_def hex_byte_def
  hex_digit_def u32_bytes_def upt_conv_Cons replicate_numeral_unfold md5_round_eval md5_add_eval

lemmas sha256_eval = sha256_def utf8_def sha256_bytes_def sha256_pad_def u64_bytes_def
  sha256_blocks.simps sha256_block_def sha256_K_def rotr_def to_hex_def hex_byte_def
  hex_digit_def u32_bytes_def upt_conv_Cons replicate_numeral_unfold
  sha256_round_eval sha256_add_eval sha256_extend_eval Let_def

text \<open>The test vectors of RFC 1321 and FIPS 180-4 for the message \<^verbatim>\<open>abc\<close>.\<close>

lemma md5_abc: "md5 ''abc'' = ''900150983cd24fb0d6963f7d28e17f72''"
  by (simp add: md5_eval del: md5_round.simps md5_add.simps)

lemma sha256_abc:
  "sha256 ''abc'' = ''ba7816bf8f01cfea414140de5dae2223b00361a396177a9cb410ff61f20015ad''"
  by (simp add: sha256_eval del: sha256_round.simps sha256_add.simps)

text \<open>
  The digests of the round-trip example. The third is the string the source hashes, the
  fourth the same string without the client nonce.
\<close>

lemma md5_ha1: "md5 ''u:R:p'' = ''653ebcc74aab44e13ba67df56c92f1d2''"
  by (simp add: md5_eval del: md5_round.simps md5_add.simps)

lemma md5_ha2: "md5 ''GET:/axis-cgi/com/ptz.cgi?pan=1'' = ''6a0af1028adce355c877fee1d9ee5b15''"
  by (simp add: md5_eval del: md5_round.simps md5_add.simps)

lemma md5_response_code:
  "md5 ''653ebcc74aab44e13ba67df56c92f1d2:N:00000001:0123456789abcdef:auth:6a0af1028adce355c877fee1d9ee5b15''
     = ''c78699d7c72f560f39d4b0c0f00370de''"
  by (simp add: md5_eval del: md5_round.simps md5_add.simps)

lemma md5_response_claim:
  "md5 ''653ebcc74aab44e13ba67df56c92f1d2:N:00000001:auth:6a0af1028adce355c877fee1d9ee5b15''
     = ''c831ae0b9dac4552ada8b35df1b62af8''"
  by (simp add: md5_eval del: md5_round.simps md5_add.simps)

text \<open>The same example hashed with SHA-256, as RFC 7616 would have it.\<close>

lemma sha256_ha1:
  "sha256 ''u:R:p'' = ''ce139d95daa4f04199adba8d172584c4709e5501d831edd29ca587b4de89818a''"
  by (simp add: sha256_eval del: sha256_round.simps sha256_add.simps)

lemma sha256_ha2:
  "sha256 ''GET:/axis-cgi/com/ptz.cgi?pan=1''
     = ''858010964f45e3d155241d29ef6ce466c168ee98aa74fe52a53b2431f95d18cd''"
  by (simp add: sha256_eval del: sha256_round.simps sha256_add.simps)

lemma sha256_response:
  "sha256 (''ce139d95daa4f04199adba8d172584c4709e5501d831edd29ca587b4de89818a''
             @ '':N:00000001:0123456789abcdef:auth:''
             @ ''858010964f45e3d155241d29ef6ce466c168ee98aa74fe52a53b2431f95d18cd'')
     = ''1b375ece3c3494d724d6dea1264f32ce73ee90f42bb2284b43181f24003d82ec''"
  by (simp add: sha256_eval del: sha256_round.simps sha256_add.simps)

lemma length_to_hex: "length (to_hex bs) = 2 * length bs"
  by (induction bs) (simp_all add: to_hex_def hex_byte_def)

lemma length_md5: "length (md5 v) = 32"
proof -
  have "length (md5_out st) = 16" for st
    by (cases st) (simp add: u32_bytes_def)
  then show ?thesis
    by (simp add: md5_def md5_bytes_def length_to_hex)
qed

lemma length_sha256: "length (sha256 v) = 64"
proof -
  have "length (sha256_out st) = 32" for st
  proof (cases st rule: prod_cases7)
    case (fields a b c d e f gh)
    then show ?thesis by (cases gh) (simp add: u32_bytes_def)
  qed
  then show ?thesis
    by (simp add: sha256_def sha256_bytes_def length_to_hex)
qed

lemma to_hex_example_rnd: "to_hex example_rnd = ''0123456789abcdef''"
  by (simp add: example_rnd_def to_hex_def hex_byte_def hex_digit_def)

subsection \<open>The digest client\<close>

lemma authenticate_ok:
  assumes "user \<noteq> []" and "pass \<noteq> []"
  shows "authenticate rnd ps method digestUri (Some user) (Some pass)
           = Inr (spec_authorization user (interp (ps ''realm'')) (interp (ps ''nonce'')) digestUri
                    (rfc2617_response md5 (to_hex rnd) ps method digestUri user pass)
                    (interp (ps ''qop'')) ''00000001'' (to_hex rnd))"
  using assms
  by (simp add: authenticate_def falsy_def Let_def interp_def spec_authorization_def
      rfc2617_response_def)

lemma authenticate_Inr:
  assumes "authenticate rnd ps method digestUri usr pwd = Inr auth"
  shows "\<exists>user pass. usr = Some user \<and> pwd = Some pass \<and> user \<noteq> [] \<and> pass \<noteq> []
           \<and> auth = spec_authorization user (interp (ps ''realm'')) (interp (ps ''nonce'')) digestUri
                      (rfc2617_response md5 (to_hex rnd) ps method digestUri user pass)
                      (interp (ps ''qop'')) ''00000001'' (to_hex rnd)"
proof -
  from assms have "\<not> falsy usr" and "\<not> falsy pwd"
    by (auto simp add: authenticate_def)
  then obtain user pass where u: "usr = Some user" "pwd = Some pass" "user \<noteq> []" "pass \<noteq> []"
    by (auto simp add: falsy_def split: option.splits)
  with assms authenticate_ok [OF u(3,4), of rnd ps "method" "digestUri"] show ?thesis
    by simp
qed

text \<open>
  The value \<open>authenticate\<close> returns begins with \<^verbatim>\<open>Digest\<close> and ends with a quote, so
  normalising it changes nothing; it is a header value when the texts put into it are,
  the hexadecimal fields being harmless.
\<close>

lemma normalize_value_id:
  assumes "v \<noteq> []" and "\<not> http_whitespace (hd v)" and "\<not> http_whitespace (last v)"
  shows "normalize_value v = v"
proof -
  from assms(1,2) have 1: "dropWhile http_whitespace v = v"
    by (cases v) simp_all
  from assms(1,3) have 2: "dropWhile http_whitespace (rev v) = rev v"
    by (cases "rev v") (simp_all add: hd_rev)
  from 1 2 show ?thesis by (simp add: normalize_value_def)
qed

lemma normalize_authorization:
  "normalize_value (spec_authorization user realm nonce uri resp qop nc cnonce)
     = spec_authorization user realm nonce uri resp qop nc cnonce"
  by (rule normalize_value_id) (simp_all add: spec_authorization_def http_whitespace_def)

lemma authenticate_normal:
  assumes "authenticate rnd ps method digestUri usr pwd = Inr auth"
  shows "normalize_value auth = auth"
  using authenticate_Inr [OF assms] by (auto simp add: normalize_authorization)

lemma is_header_value_simps:
  "is_header_value [] = True"
  "is_header_value (c # v) = (of_char c \<notin> {0, 10, 13 :: nat} \<and> is_header_value v)"
  "is_header_value (v @ w) = (is_header_value v \<and> is_header_value w)"
  by (simp_all add: is_header_value_def)

lemma hex_digit_value: "n < 16 \<Longrightarrow> is_header_value [hex_digit n]"
proof -
  assume "n < 16"
  then have "hex_digit n \<in> set ''0123456789abcdef''"
    unfolding hex_digit_def by (intro nth_mem) simp
  then show ?thesis
    by (auto simp add: is_header_value_def)
qed

lemma is_header_value_to_hex: "is_header_value (to_hex bs)"
proof (induction bs)
  case Nil
  then show ?case by (simp add: to_hex_def is_header_value_def)
next
  case (Cons b bs)
  have "unat b < 256"
    using unsigned_less [of b, where 'a = nat] by simp
  then have "unat (drop_bit 4 b) < 16"
    by (simp add: unat_drop_bit_eq drop_bit_eq_div unat_div_distrib)
  moreover have "unat (b AND 15) < 16"
    using word_and_le1 [of b 15] by (simp add: word_le_nat_alt)
  ultimately have "is_header_value (hex_byte b)"
    using hex_digit_value [of "unat (drop_bit 4 b)"] hex_digit_value [of "unat (b AND 15)"]
    by (simp add: hex_byte_def is_header_value_def)
  with Cons show ?case by (simp add: to_hex_def is_header_value_simps)
qed

lemma is_header_value_authorization:
  "is_header_value (spec_authorization user realm nonce uri (md5 x) qop ''00000001'' (to_hex rnd))
     = (is_header_value user \<and> is_header_value realm \<and> is_header_value nonce
        \<and> is_header_value uri \<and> is_header_value qop)"
  by (auto simp add: spec_authorization_def md5_def is_header_value_to_hex is_header_value_simps)

text \<open>
  The constructor on a plain object: white space around a value is removed, two entries
  whose names differ in case only are combined, and a name with a space or a value with a
  line feed inside is refused.
\<close>

lemma new_Headers_examples:
  "new_Headers (PlainObject [(''Accept'', '' text/html ''), (''accept'', ''*/*'')])
     = Inr [''accept'' \<mapsto> ''text/html, */*'']"
  "new_Headers (PlainObject [(''Content Type'', ''text/plain'')]) = Inl TypeError"
  "new_Headers (PlainObject [(''X-Note'', ''a'' @ [CHR 0x0A] @ ''b'')]) = Inl TypeError"
  by (simp_all add: Headers_append_def is_header_name_def is_tchar_def is_header_value_def
      normalize_value_def http_whitespace_def lower_def lower_char_def Let_def)

lemma fill_TypeError: "fill h kvs = Inl e \<Longrightarrow> e = TypeError"
  by (induction kvs arbitrary: h)
    (auto simp add: Headers_append_def Let_def split: if_splits option.splits sum.splits)

lemma new_Headers_TypeError: "new_Headers i = Inl e \<Longrightarrow> e = TypeError"
  by (cases i) (auto dest: fill_TypeError)

lemma new_Headers_initial:
  "new_Headers (case opt_headers opts of None \<Rightarrow> PlainObject [] | Some kvs \<Rightarrow> PlainObject kvs)
     = new_Headers (req_headers (initial_request u opts))"
  by (cases "opt_headers opts") (simp_all add: initial_request_def)

lemma name_Authorization:
  "is_header_name ''Authorization''" "lower ''Authorization'' = ''authorization''"
  by (simp_all add: is_header_name_def is_tchar_def lower_def lower_char_def)

lemma next_headers_ok:
  assumes "new_Headers (req_headers (initial_request u opts)) = Inr h0"
    and "is_header_value auth" and "normalize_value auth = auth"
  shows "next_headers opts auth = Inr (h0(''authorization'' \<mapsto> auth))"
  using assms
  by (simp add: next_headers_def new_Headers_initial [of opts u] Headers_set_def
      name_Authorization)

lemma next_headers_bad:
  assumes "isl (new_Headers (req_headers (initial_request u opts))) \<or> \<not> is_header_value auth"
    and "normalize_value auth = auth"
  shows "next_headers opts auth = Inl TypeError"
proof (cases "new_Headers (req_headers (initial_request u opts))")
  case (Inl e)
  with new_Headers_TypeError [OF Inl] show ?thesis
    by (simp add: next_headers_def new_Headers_initial [of opts u])
next
  case (Inr h)
  with assms show ?thesis
    by (simp add: next_headers_def new_Headers_initial [of opts u] Headers_set_def
        name_Authorization)
qed

lemma fetch_first_not_401:
  assumes "net [] (initial_request u opts) = Inr r" and "status r \<noteq> 401"
  shows "fetchWithDigest net rnd u opts = (Inr r, [initial_request u opts])"
  using assms by (simp add: fetchWithDigest_def Let_def)

lemma fetch_retry:
  assumes "net [] (initial_request u opts) = Inr r" and "status r = 401"
    and "parseDigestHeader (headers r ''www-authenticate'') = Inr ps"
    and "authenticate rnd ps (method_of opts) (pathname u @ search u) (username opts) (password opts)
           = Inr auth"
    and "next_headers opts auth = Inr h"
  shows "fetchWithDigest net rnd u opts
           = (net [initial_request u opts] (retry_request u opts h),
              [initial_request u opts, retry_request u opts h])"
  using assms by (simp add: fetchWithDigest_def Let_def)

lemma fetch_no_retry:
  assumes "net [] (initial_request u opts) = Inr r" and "status r = 401"
    and "parseDigestHeader (headers r ''www-authenticate'') = Inr ps"
    and "authenticate rnd ps (method_of opts) (pathname u @ search u) (username opts) (password opts)
           = Inr auth"
    and "next_headers opts auth = Inl e"
  shows "fetchWithDigest net rnd u opts = (Inl e, [initial_request u opts])"
  using assms by (simp add: fetchWithDigest_def Let_def)

lemma fetch_bad_challenge:
  assumes "net [] (initial_request u opts) = Inr r" and "status r = 401"
    and "parseDigestHeader (headers r ''www-authenticate'') = Inl e"
  shows "fetchWithDigest net rnd u opts = (Inl e, [initial_request u opts])"
  using assms by (simp add: fetchWithDigest_def Let_def)

text \<open>
  After a 401 with a challenge that can be parsed and a digest that has been computed,
  \<open>fetchWithDigest\<close> goes one of two ways.
\<close>

lemma fetch_after_digest:
  assumes "net [] (initial_request u opts) = Inr r" and "status r = 401"
    and "parseDigestHeader (headers r ''www-authenticate'') = Inr ps"
    and "authenticate rnd ps (method_of opts) (pathname u @ search u) (username opts) (password opts)
           = Inr auth"
  shows "new_Headers (req_headers (initial_request u opts)) = Inr h0 \<Longrightarrow> is_header_value auth \<Longrightarrow>
           fetchWithDigest net rnd u opts
             = (net [initial_request u opts] (retry_request u opts (h0(''authorization'' \<mapsto> auth))),
                [initial_request u opts, retry_request u opts (h0(''authorization'' \<mapsto> auth))])"
    and "isl (new_Headers (req_headers (initial_request u opts))) \<or> \<not> is_header_value auth \<Longrightarrow>
           fetchWithDigest net rnd u opts = (Inl TypeError, [initial_request u opts])"
proof -
  note n = authenticate_normal [OF assms(4)]
  show "fetchWithDigest net rnd u opts
          = (net [initial_request u opts] (retry_request u opts (h0(''authorization'' \<mapsto> auth))),
             [initial_request u opts, retry_request u opts (h0(''authorization'' \<mapsto> auth))])"
    if "new_Headers (req_headers (initial_request u opts)) = Inr h0" and "is_header_value auth"
    using assms next_headers_ok [OF that n] by (rule fetch_retry [where r = r])
  show "fetchWithDigest net rnd u opts = (Inl TypeError, [initial_request u opts])"
    if "isl (new_Headers (req_headers (initial_request u opts))) \<or> \<not> is_header_value auth"
    using assms next_headers_bad [OF that n] by (rule fetch_no_retry [where r = r])
qed

section \<open>The claims\<close>

subsection \<open>C1: the digest response\<close>

text \<open>
  Claim C1, as amended. For every challenge with realm, nonce and qop, every method,
  digest URI, non-empty username and non-empty password, \<open>authenticate\<close> returns the
  \<^verbatim>\<open>Authorization\<close> value whose response field is
  \<open>md5 (HA1 : nonce : nc : cnonce : qop : HA2)\<close> with \<open>HA1 = md5 (username : realm : password)\<close>,
  \<open>HA2 = md5 (method : digestURI)\<close>, \<open>nc = 00000001\<close> and \<open>cnonce\<close> the hexadecimal form
  of the random bytes. In \<open>fetchWithDigest\<close> the digest URI is the path of the target URL
  followed by its query string; when \<^verbatim>\<open>Headers\<close> accepts the caller's headers and the
  value (it holds no NUL, LF or CR, which it can only get from the username, the
  challenge or the URL), the second request carries the value as \<^verbatim>\<open>Authorization\<close>, and
  when not, the call fails with a \<open>TypeError\<close> after the first request. The claim as
  written leaves \<open>cnonce\<close> out of the hashed string.
\<close>

theorem digest_response_formula:
  assumes "ps ''realm'' = Some realm" and "ps ''nonce'' = Some nonce" and "ps ''qop'' = Some qop"
    and "user \<noteq> []" and "pass \<noteq> []"
  shows "authenticate rnd ps method digestUri (Some user) (Some pass)
           = Inr (spec_authorization user realm nonce digestUri
                    (md5 (md5 (user @ '':'' @ realm @ '':'' @ pass) @ '':'' @ nonce @ '':''
                            @ ''00000001'' @ '':'' @ to_hex rnd @ '':'' @ qop @ '':''
                            @ md5 (method @ '':'' @ digestUri)))
                    qop ''00000001'' (to_hex rnd))
       \<and> (net [] (initial_request u opts) = Inr r \<and> status r = 401
            \<and> parseDigestHeader (headers r ''www-authenticate'') = Inr ps
            \<and> username opts = Some user \<and> password opts = Some pass \<longrightarrow>
          (let auth = spec_authorization user realm nonce (pathname u @ search u)
                        (md5 (md5 (user @ '':'' @ realm @ '':'' @ pass) @ '':'' @ nonce @ '':''
                                @ ''00000001'' @ '':'' @ to_hex rnd @ '':'' @ qop @ '':''
                                @ md5 (method_of opts @ '':'' @ pathname u @ search u)))
                        qop ''00000001'' (to_hex rnd)
           in (new_Headers (req_headers (initial_request u opts)) = Inr h0
                 \<and> is_header_value auth \<longrightarrow>
               snd (fetchWithDigest net rnd u opts)
                 = [initial_request u opts,
                    retry_request u opts (h0(''authorization'' \<mapsto> auth))])
              \<and> (isl (new_Headers (req_headers (initial_request u opts)))
                    \<or> \<not> is_header_value auth \<longrightarrow>
                  fetchWithDigest net rnd u opts = (Inl TypeError, [initial_request u opts]))))"
proof -
  have a: "authenticate rnd ps m d (Some user) (Some pass)
           = Inr (spec_authorization user realm nonce d
                    (md5 (md5 (user @ '':'' @ realm @ '':'' @ pass) @ '':'' @ nonce @ '':''
                            @ ''00000001'' @ '':'' @ to_hex rnd @ '':'' @ qop @ '':''
                            @ md5 (m @ '':'' @ d)))
                    qop ''00000001'' (to_hex rnd))" for m d
    using assms by (simp add: authenticate_ok rfc2617_response_def interp_def)
  let ?auth = "spec_authorization user realm nonce (pathname u @ search u)
                 (md5 (md5 (user @ '':'' @ realm @ '':'' @ pass) @ '':'' @ nonce @ '':''
                         @ ''00000001'' @ '':'' @ to_hex rnd @ '':'' @ qop @ '':''
                         @ md5 (method_of opts @ '':'' @ pathname u @ search u)))
                 qop ''00000001'' (to_hex rnd)"
  have b: "(new_Headers (req_headers (initial_request u opts)) = Inr h0
                 \<and> is_header_value ?auth \<longrightarrow>
               snd (fetchWithDigest net rnd u opts)
                 = [initial_request u opts,
                    retry_request u opts (h0(''authorization'' \<mapsto> ?auth))])
              \<and> (isl (new_Headers (req_headers (initial_request u opts)))
                    \<or> \<not> is_header_value ?auth \<longrightarrow>
                  fetchWithDigest net rnd u opts = (Inl TypeError, [initial_request u opts]))"
    if h: "net [] (initial_request u opts) = Inr r \<and> status r = 401
            \<and> parseDigestHeader (headers r ''www-authenticate'') = Inr ps
            \<and> username opts = Some user \<and> password opts = Some pass"
  proof -
    from h a [of "method_of opts" "pathname u @ search u"]
    have au: "authenticate rnd ps (method_of opts) (pathname u @ search u)
            (username opts) (password opts) = Inr ?auth"
      by simp
    from h have n: "net [] (initial_request u opts) = Inr r" and s: "status r = 401"
      and p: "parseDigestHeader (headers r ''www-authenticate'') = Inr ps"
      by simp_all
    note f = fetch_after_digest [where net = net and r = r and u = u and opts = opts, OF n s p au]
    from f(1) [of h0] f(2) show ?thesis by simp
  qed
  from a [of "method" "digestUri"] b show ?thesis
    unfolding Let_def by blast
qed

text \<open>
  The round-trip example of the specification, through both functions; and the same
  call with a line feed in the username, which ends after the first request.
\<close>

theorem digest_response_formula_witness:
  \<open>authenticate example_rnd example_params ''GET'' ''/axis-cgi/com/ptz.cgi?pan=1''
       (Some ''u'') (Some ''p'')
     = Inr (spec_authorization ''u'' ''R'' ''N'' ''/axis-cgi/com/ptz.cgi?pan=1''
              ''c78699d7c72f560f39d4b0c0f00370de'' ''auth'' ''00000001'' ''0123456789abcdef'')
   \<and> snd (fetchWithDigest
            (challenge_network (Some ''Digest realm="R", nonce="N", qop="auth"'') 200)
            example_rnd example_url example_options)
     = [initial_request example_url example_options,
        retry_request example_url example_options
          [''authorization'' \<mapsto>
             spec_authorization ''u'' ''R'' ''N'' ''/axis-cgi/com/ptz.cgi?pan=1''
               ''c78699d7c72f560f39d4b0c0f00370de'' ''auth'' ''00000001'' ''0123456789abcdef'']]
   \<and> fetchWithDigest
          (challenge_network (Some ''Digest realm="R", nonce="N", qop="auth"'') 200)
          example_rnd example_url line_feed_options
     = (Inl TypeError, [initial_request example_url line_feed_options])\<close>
proof -
  have p: "example_params ''realm'' = Some ''R''" "example_params ''nonce'' = Some ''N''"
    "example_params ''qop'' = Some ''auth''"
    by (simp_all add: example_params_def)
  have ne: "''u'' \<noteq> []" "''p'' \<noteq> []" by simp_all
  let ?net = \<open>challenge_network (Some ''Digest realm="R", nonce="N", qop="auth"'') 200\<close>
  let ?r401 = \<open>\<lparr>status = 401,
      headers = (\<lambda>name. if name = ''www-authenticate''
                          then Some ''Digest realm="R", nonce="N", qop="auth"'' else None),
      body = []\<rparr>\<close>
  let ?auth = "spec_authorization ''u'' ''R'' ''N'' (pathname example_url @ search example_url)
      (md5 (md5 (''u'' @ '':'' @ ''R'' @ '':'' @ ''p'') @ '':'' @ ''N'' @ '':''
              @ ''00000001'' @ '':'' @ to_hex example_rnd @ '':'' @ ''auth'' @ '':''
              @ md5 (method_of example_options @ '':''
                       @ pathname example_url @ search example_url)))
      ''auth'' ''00000001'' (to_hex example_rnd)"
  note t = digest_response_formula [OF p ne, of example_rnd "''GET''"
      "''/axis-cgi/com/ptz.cgi?pan=1''" ?net example_url example_options ?r401 Map.empty,
      unfolded Let_def]
  have h: "?net [] (initial_request example_url example_options) = Inr ?r401 \<and> status ?r401 = 401
      \<and> parseDigestHeader (headers ?r401 ''www-authenticate'') = Inr example_params
      \<and> username example_options = Some ''u'' \<and> password example_options = Some ''p''"
    by (simp add: challenge_network_def parse_example_challenge example_options_def)
  have v: "new_Headers (req_headers (initial_request example_url example_options)) = Inr Map.empty
      \<and> is_header_value ?auth"
    by (simp add: initial_request_def example_options_def example_url_def
        is_header_value_authorization is_header_value_simps)
  let ?lf = "''u'' @ [CHR 0x0A] @ ''x''"
  let ?auth' = "spec_authorization ?lf ''R'' ''N'' (pathname example_url @ search example_url)
      (md5 (md5 (?lf @ '':'' @ ''R'' @ '':'' @ ''p'') @ '':'' @ ''N'' @ '':''
              @ ''00000001'' @ '':'' @ to_hex example_rnd @ '':'' @ ''auth'' @ '':''
              @ md5 (method_of line_feed_options @ '':''
                       @ pathname example_url @ search example_url)))
      ''auth'' ''00000001'' (to_hex example_rnd)"
  have ne': "?lf \<noteq> []" "''p'' \<noteq> []" by simp_all
  note t' = digest_response_formula [OF p ne', of example_rnd "''GET''"
      "''/axis-cgi/com/ptz.cgi?pan=1''" ?net example_url line_feed_options ?r401 Map.empty,
      unfolded Let_def]
  have h': "?net [] (initial_request example_url line_feed_options) = Inr ?r401
      \<and> status ?r401 = 401
      \<and> parseDigestHeader (headers ?r401 ''www-authenticate'') = Inr example_params
      \<and> username line_feed_options = Some ?lf \<and> password line_feed_options = Some ''p''"
    by (simp add: challenge_network_def parse_example_challenge line_feed_options_def
        example_options_def)
  have v': "isl (new_Headers (req_headers (initial_request example_url line_feed_options)))
      \<or> \<not> is_header_value ?auth'"
    by (simp add: spec_authorization_def is_header_value_simps)
  from t [THEN conjunct1] t [THEN conjunct2, THEN mp, OF h, THEN conjunct1, THEN mp, OF v]
    t' [THEN conjunct2, THEN mp, OF h', THEN conjunct2, THEN mp, OF v']
  show ?thesis
    by (simp add: to_hex_example_rnd md5_ha1 [simplified] md5_ha2 [simplified]
        md5_response_code [simplified] example_url_def example_options_def method_of_def)
qed

text \<open>
  C1 as written fails on the example: the response field the source computes is
  \<^verbatim>\<open>c786...\<close>, the hash of the string with \<open>cnonce\<close>, and the hash of
  \<open>HA1 : nonce : nc : qop : HA2\<close> is \<^verbatim>\<open>c831...\<close>.
\<close>

theorem response_claimed_without_cnonce:
  "authenticate example_rnd example_params ''GET'' ''/axis-cgi/com/ptz.cgi?pan=1''
       (Some ''u'') (Some ''p'')
     = Inr (spec_authorization ''u'' ''R'' ''N'' ''/axis-cgi/com/ptz.cgi?pan=1''
              ''c78699d7c72f560f39d4b0c0f00370de'' ''auth'' ''00000001'' ''0123456789abcdef'')
   \<and> md5 (md5 (''u'' @ '':'' @ ''R'' @ '':'' @ ''p'') @ '':'' @ ''N'' @ '':'' @ ''00000001''
            @ '':'' @ ''auth'' @ '':'' @ md5 (''GET'' @ '':'' @ ''/axis-cgi/com/ptz.cgi?pan=1''))
       = ''c831ae0b9dac4552ada8b35df1b62af8''
   \<and> authenticate example_rnd example_params ''GET'' ''/axis-cgi/com/ptz.cgi?pan=1''
       (Some ''u'') (Some ''p'')
     \<noteq> Inr (spec_authorization ''u'' ''R'' ''N'' ''/axis-cgi/com/ptz.cgi?pan=1''
              (md5 (md5 (''u'' @ '':'' @ ''R'' @ '':'' @ ''p'') @ '':'' @ ''N'' @ '':'' @ ''00000001''
                      @ '':'' @ ''auth'' @ '':''
                      @ md5 (''GET'' @ '':'' @ ''/axis-cgi/com/ptz.cgi?pan=1'')))
              ''auth'' ''00000001'' ''0123456789abcdef'')"
proof -
  have a: "authenticate example_rnd example_params ''GET'' ''/axis-cgi/com/ptz.cgi?pan=1''
       (Some ''u'') (Some ''p'')
     = Inr (spec_authorization ''u'' ''R'' ''N'' ''/axis-cgi/com/ptz.cgi?pan=1''
              ''c78699d7c72f560f39d4b0c0f00370de'' ''auth'' ''00000001'' ''0123456789abcdef'')"
    by (simp add: authenticate_ok rfc2617_response_def interp_def example_params_def
        to_hex_example_rnd md5_ha1 [simplified] md5_ha2 [simplified]
        md5_response_code [simplified])
  have b: "md5 (md5 (''u'' @ '':'' @ ''R'' @ '':'' @ ''p'') @ '':'' @ ''N'' @ '':'' @ ''00000001''
            @ '':'' @ ''auth'' @ '':'' @ md5 (''GET'' @ '':'' @ ''/axis-cgi/com/ptz.cgi?pan=1''))
       = ''c831ae0b9dac4552ada8b35df1b62af8''"
    by (simp add: md5_ha1 [simplified] md5_ha2 [simplified] md5_response_claim [simplified])
  have c: "spec_authorization ''u'' ''R'' ''N'' ''/axis-cgi/com/ptz.cgi?pan=1''
              ''c78699d7c72f560f39d4b0c0f00370de'' ''auth'' ''00000001'' ''0123456789abcdef''
         \<noteq> spec_authorization ''u'' ''R'' ''N'' ''/axis-cgi/com/ptz.cgi?pan=1''
              ''c831ae0b9dac4552ada8b35df1b62af8'' ''auth'' ''00000001'' ''0123456789abcdef''"
    by (simp add: spec_authorization_def)
  from a b c show ?thesis by simp
qed

subsection \<open>C2: a challenge that cannot be used\<close>

text \<open>
  Claim C2, as amended. For an initial response with status 401: when the
  \<^verbatim>\<open>WWW-Authenticate\<close> header is absent or does not begin with \<^verbatim>\<open>Digest \<close>,
  \<open>fetchWithDigest\<close> fails with \<open>ProtocolError\<close> and the initial request is the only one
  sent. A Digest challenge without a \<^verbatim>\<open>nonce\<close> parameter is not rejected for that: with
  a non-empty username and password the \<^verbatim>\<open>Authorization\<close> value is computed with
  \<^verbatim>\<open>nonce="undefined"\<close>; when \<^verbatim>\<open>Headers\<close> accepts the caller's headers and that value (it
  holds no NUL, LF or CR), the request is sent a second time with it and the answer to
  that request is the result; when not, the call fails with a \<open>TypeError\<close>, not with
  \<open>ProtocolError\<close>, after the first request.
\<close>

theorem non_digest_challenge_rejected:
  assumes "net [] (initial_request u opts) = Inr r" and "status r = 401"
  shows "(headers r ''www-authenticate'' = None
            \<or> (\<exists>h. headers r ''www-authenticate'' = Some h \<and> take 7 h \<noteq> ''Digest '') \<longrightarrow>
          fetchWithDigest net rnd u opts = (Inl ProtocolError, [initial_request u opts]))
       \<and> (parseDigestHeader (headers r ''www-authenticate'') = Inr ps \<and> ps ''nonce'' = None
            \<and> username opts = Some user \<and> user \<noteq> [] \<and> password opts = Some pass \<and> pass \<noteq> [] \<longrightarrow>
          (let auth = spec_authorization user (interp (ps ''realm'')) ''undefined''
                        (pathname u @ search u)
                        (rfc2617_response md5 (to_hex rnd) ps (method_of opts)
                           (pathname u @ search u) user pass)
                        (interp (ps ''qop'')) ''00000001'' (to_hex rnd)
           in (new_Headers (req_headers (initial_request u opts)) = Inr h0
                 \<and> is_header_value auth \<longrightarrow>
               snd (fetchWithDigest net rnd u opts)
                 = [initial_request u opts,
                    retry_request u opts (h0(''authorization'' \<mapsto> auth))]
               \<and> fst (fetchWithDigest net rnd u opts)
                 = net [initial_request u opts]
                     (retry_request u opts (h0(''authorization'' \<mapsto> auth))))
              \<and> (isl (new_Headers (req_headers (initial_request u opts)))
                    \<or> \<not> is_header_value auth \<longrightarrow>
                  fetchWithDigest net rnd u opts = (Inl TypeError, [initial_request u opts])
                  \<and> TypeError \<noteq> ProtocolError)))"
proof -
  have 1: "headers r ''www-authenticate'' = None
            \<or> (\<exists>h. headers r ''www-authenticate'' = Some h \<and> take 7 h \<noteq> ''Digest '') \<longrightarrow>
          fetchWithDigest net rnd u opts = (Inl ProtocolError, [initial_request u opts])"
  proof
    assume "headers r ''www-authenticate'' = None
            \<or> (\<exists>h. headers r ''www-authenticate'' = Some h \<and> take 7 h \<noteq> ''Digest '')"
    then have "parseDigestHeader (headers r ''www-authenticate'') = Inl ProtocolError"
      by (auto simp add: parseDigestHeader_def)
    with assms
    show "fetchWithDigest net rnd u opts = (Inl ProtocolError, [initial_request u opts])"
      by (rule fetch_bad_challenge [where net = net and r = r])
  qed
  let ?auth = "spec_authorization user (interp (ps ''realm'')) ''undefined''
                 (pathname u @ search u)
                 (rfc2617_response md5 (to_hex rnd) ps (method_of opts) (pathname u @ search u)
                    user pass)
                 (interp (ps ''qop'')) ''00000001'' (to_hex rnd)"
  have 2: "(new_Headers (req_headers (initial_request u opts)) = Inr h0
                 \<and> is_header_value ?auth \<longrightarrow>
               snd (fetchWithDigest net rnd u opts)
                 = [initial_request u opts,
                    retry_request u opts (h0(''authorization'' \<mapsto> ?auth))]
               \<and> fst (fetchWithDigest net rnd u opts)
                 = net [initial_request u opts]
                     (retry_request u opts (h0(''authorization'' \<mapsto> ?auth))))
              \<and> (isl (new_Headers (req_headers (initial_request u opts)))
                    \<or> \<not> is_header_value ?auth \<longrightarrow>
                  fetchWithDigest net rnd u opts = (Inl TypeError, [initial_request u opts])
                  \<and> TypeError \<noteq> ProtocolError)"
    if h: "parseDigestHeader (headers r ''www-authenticate'') = Inr ps \<and> ps ''nonce'' = None
            \<and> username opts = Some user \<and> user \<noteq> [] \<and> password opts = Some pass \<and> pass \<noteq> []"
  proof -
    from h have au: "authenticate rnd ps (method_of opts) (pathname u @ search u)
                   (username opts) (password opts) = Inr ?auth"
      by (simp add: authenticate_ok) (simp add: interp_def)
    note f = fetch_after_digest [where net = net and r = r and u = u and opts = opts,
        OF assms conjunct1 [OF h] au]
    from f(1) [of h0] f(2) show ?thesis by (simp add: ProtocolError_def)
  qed
  from 1 2 show ?thesis
    unfolding Let_def by blast
qed

text \<open>
  A \<^verbatim>\<open>Basic\<close> challenge and a missing header are rejected after one request; the
  challenge without nonce leads to two, and with a line feed in the username to a
  \<open>TypeError\<close> after one.
\<close>

theorem non_digest_challenge_rejected_witness:
  \<open>fetchWithDigest (challenge_network (Some ''Basic realm="R"'') 200)
       example_rnd example_url example_options
     = (Inl ProtocolError, [initial_request example_url example_options])
   \<and> fetchWithDigest (challenge_network None 200) example_rnd example_url example_options
     = (Inl ProtocolError, [initial_request example_url example_options])
   \<and> length (snd (fetchWithDigest (challenge_network (Some ''Digest realm="R", qop="auth"'') 200)
                     example_rnd example_url example_options)) = 2
   \<and> fetchWithDigest (challenge_network (Some ''Digest realm="R", qop="auth"'') 200)
        example_rnd example_url line_feed_options
     = (Inl TypeError, [initial_request example_url line_feed_options])\<close>
proof -
  let ?req1 = "initial_request example_url example_options"
  let ?basic = \<open>\<lparr>status = 401,
      headers = (\<lambda>name. if name = ''www-authenticate'' then Some ''Basic realm="R"'' else None),
      body = []\<rparr>\<close>
  have b1: \<open>challenge_network (Some ''Basic realm="R"'') 200 [] ?req1 = Inr ?basic\<close>
    and b2: "status ?basic = 401"
    and b3: \<open>headers ?basic ''www-authenticate'' = None
       \<or> (\<exists>h. headers ?basic ''www-authenticate'' = Some h \<and> take 7 h \<noteq> ''Digest '')\<close>
    by (simp_all add: challenge_network_def)
  note t1 = non_digest_challenge_rejected [where r = ?basic and u = example_url
      and opts = example_options and rnd = example_rnd
      and net = \<open>challenge_network (Some ''Basic realm="R"'') 200\<close>, OF b1 b2]
  have 1: \<open>fetchWithDigest (challenge_network (Some ''Basic realm="R"'') 200)
       example_rnd example_url example_options = (Inl ProtocolError, [?req1])\<close>
    using t1 [THEN conjunct1, THEN mp, OF b3] .
  let ?none = "\<lparr>status = 401,
      headers = (\<lambda>name. if name = ''www-authenticate'' then None else None), body = []\<rparr>"
  have n1: "challenge_network None 200 [] ?req1 = Inr ?none"
    and n2: "status ?none = 401"
    and n3: "headers ?none ''www-authenticate'' = None
       \<or> (\<exists>h. headers ?none ''www-authenticate'' = Some h \<and> take 7 h \<noteq> ''Digest '')"
    by (simp_all add: challenge_network_def)
  note t2 = non_digest_challenge_rejected [where r = ?none and u = example_url
      and opts = example_options and rnd = example_rnd
      and net = "challenge_network None 200", OF n1 n2]
  have 2: "fetchWithDigest (challenge_network None 200) example_rnd example_url example_options
       = (Inl ProtocolError, [?req1])"
    using t2 [THEN conjunct1, THEN mp, OF n3] .
  let ?digest = \<open>\<lparr>status = 401,
      headers = (\<lambda>name. if name = ''www-authenticate''
                          then Some ''Digest realm="R", qop="auth"'' else None),
      body = []\<rparr>\<close>
  let ?ps = "[''realm'' \<mapsto> ''R'', ''qop'' \<mapsto> ''auth'']"
  let ?auth = "spec_authorization ''u'' (interp (?ps ''realm'')) ''undefined''
      (pathname example_url @ search example_url)
      (rfc2617_response md5 (to_hex example_rnd) ?ps (method_of example_options)
         (pathname example_url @ search example_url) ''u'' ''p'')
      (interp (?ps ''qop'')) ''00000001'' (to_hex example_rnd)"
  have d1: \<open>challenge_network (Some ''Digest realm="R", qop="auth"'') 200 [] ?req1 = Inr ?digest\<close>
    and d2: "status ?digest = 401"
    and d3: "parseDigestHeader (headers ?digest ''www-authenticate'') = Inr ?ps
       \<and> ?ps ''nonce'' = None
       \<and> username example_options = Some ''u'' \<and> ''u'' \<noteq> []
       \<and> password example_options = Some ''p'' \<and> ''p'' \<noteq> []"
    by (simp_all add: challenge_network_def parse_without_nonce example_options_def)
  have d4: "new_Headers (req_headers ?req1) = Inr Map.empty \<and> is_header_value ?auth"
    by (simp add: initial_request_def example_options_def example_url_def interp_def
        rfc2617_response_def is_header_value_authorization is_header_value_simps)
  note t3 = non_digest_challenge_rejected [where r = ?digest and u = example_url
      and opts = example_options and rnd = example_rnd and ps = ?ps
      and user = "''u''" and pass = "''p''" and ?h0.0 = Map.empty
      and net = \<open>challenge_network (Some ''Digest realm="R", qop="auth"'') 200\<close>, OF d1 d2,
      unfolded Let_def]
  have 3: \<open>length (snd (fetchWithDigest
              (challenge_network (Some ''Digest realm="R", qop="auth"'') 200)
              example_rnd example_url example_options)) = 2\<close>
    using t3 [THEN conjunct2, THEN mp, OF d3, THEN conjunct1, THEN mp, OF d4] by simp
  let ?req1' = "initial_request example_url line_feed_options"
  let ?lf = "''u'' @ [CHR 0x0A] @ ''x''"
  let ?auth' = "spec_authorization ?lf (interp (?ps ''realm'')) ''undefined''
      (pathname example_url @ search example_url)
      (rfc2617_response md5 (to_hex example_rnd) ?ps (method_of line_feed_options)
         (pathname example_url @ search example_url) ?lf ''p'')
      (interp (?ps ''qop'')) ''00000001'' (to_hex example_rnd)"
  have e1: \<open>challenge_network (Some ''Digest realm="R", qop="auth"'') 200 [] ?req1' = Inr ?digest\<close>
    and e3: "parseDigestHeader (headers ?digest ''www-authenticate'') = Inr ?ps
       \<and> ?ps ''nonce'' = None
       \<and> username line_feed_options = Some ?lf \<and> ?lf \<noteq> []
       \<and> password line_feed_options = Some ''p'' \<and> ''p'' \<noteq> []"
    by (simp_all add: challenge_network_def parse_without_nonce line_feed_options_def
        example_options_def)
  have e4: "isl (new_Headers (req_headers ?req1')) \<or> \<not> is_header_value ?auth'"
    by (simp add: spec_authorization_def is_header_value_simps)
  note t4 = non_digest_challenge_rejected [where r = ?digest and u = example_url
      and opts = line_feed_options and rnd = example_rnd and ps = ?ps
      and user = ?lf and pass = "''p''" and ?h0.0 = Map.empty
      and net = \<open>challenge_network (Some ''Digest realm="R", qop="auth"'') 200\<close>, OF e1 d2,
      unfolded Let_def]
  have 4: \<open>fetchWithDigest (challenge_network (Some ''Digest realm="R", qop="auth"'') 200)
        example_rnd example_url line_feed_options = (Inl TypeError, [?req1'])\<close>
    using t4 [THEN conjunct2, THEN mp, OF e3, THEN conjunct2, THEN mp, OF e4] by simp
  from 1 2 3 4 show ?thesis by blast
qed

text \<open>
  C2 as written fails for the challenge \<^verbatim>\<open>Digest realm="R", qop="auth"\<close>: the call does
  not fail, it returns the answer to a second request, which was sent with
  \<^verbatim>\<open>nonce="undefined"\<close>.
\<close>

theorem challenge_without_nonce_accepted:
  \<open>fst (fetchWithDigest (challenge_network (Some ''Digest realm="R", qop="auth"'') 200)
          example_rnd example_url example_options)
     = Inr \<lparr>status = 200, headers = Map.empty, body = ''ok''\<rparr>
   \<and> fst (fetchWithDigest (challenge_network (Some ''Digest realm="R", qop="auth"'') 200)
          example_rnd example_url example_options)
     \<noteq> Inl ProtocolError
   \<and> snd (fetchWithDigest (challenge_network (Some ''Digest realm="R", qop="auth"'') 200)
          example_rnd example_url example_options)
     = [initial_request example_url example_options,
        retry_request example_url example_options
          [''authorization'' \<mapsto>
             spec_authorization ''u'' ''R'' ''undefined'' ''/axis-cgi/com/ptz.cgi?pan=1''
               (md5 (md5 ''u:R:p'' @ '':undefined:00000001:0123456789abcdef:auth:''
                       @ md5 ''GET:/axis-cgi/com/ptz.cgi?pan=1''))
               ''auth'' ''00000001'' ''0123456789abcdef'']]\<close>
proof -
  let ?net = \<open>challenge_network (Some ''Digest realm="R", qop="auth"'') 200\<close>
  let ?req1 = "initial_request example_url example_options"
  let ?r401 = \<open>\<lparr>status = 401,
      headers = (\<lambda>name. if name = ''www-authenticate''
                          then Some ''Digest realm="R", qop="auth"'' else None),
      body = []\<rparr>\<close>
  let ?auth = "spec_authorization ''u'' ''R'' ''undefined'' ''/axis-cgi/com/ptz.cgi?pan=1''
             (md5 (md5 ''u:R:p'' @ '':undefined:00000001:0123456789abcdef:auth:''
                     @ md5 ''GET:/axis-cgi/com/ptz.cgi?pan=1''))
             ''auth'' ''00000001'' ''0123456789abcdef''"
  have n: "?net [] ?req1 = Inr ?r401" and s: "status ?r401 = 401"
    by (simp_all add: challenge_network_def)
  have p: \<open>parseDigestHeader (headers ?r401 ''www-authenticate'')
             = Inr [''realm'' \<mapsto> ''R'', ''qop'' \<mapsto> ''auth'']\<close>
    by (simp add: parse_without_nonce)
  have a: "authenticate example_rnd [''realm'' \<mapsto> ''R'', ''qop'' \<mapsto> ''auth'']
             (method_of example_options) (pathname example_url @ search example_url)
             (username example_options) (password example_options) = Inr ?auth"
    by (simp add: authenticate_ok example_options_def example_url_def method_of_def
        interp_def rfc2617_response_def to_hex_example_rnd)
  have h: "new_Headers (req_headers ?req1) = Inr Map.empty"
    by (simp add: initial_request_def example_options_def)
  have v: "is_header_value ?auth"
    using is_header_value_authorization [of "''u''" "''R''" "''undefined''"
        "''/axis-cgi/com/ptz.cgi?pan=1''" _ "''auth''" example_rnd]
    by (simp add: to_hex_example_rnd is_header_value_simps)
  have "fetchWithDigest ?net example_rnd example_url example_options
          = (?net [?req1] (retry_request example_url example_options [''authorization'' \<mapsto> ?auth]),
             [?req1, retry_request example_url example_options [''authorization'' \<mapsto> ?auth]])"
    using fetch_after_digest(1) [where net = ?net and r = ?r401 and u = example_url
        and opts = example_options, OF n s p a h v] .
  then show ?thesis
    by (simp add: challenge_network_def ProtocolError_def)
qed

subsection \<open>C3: where \<open>start\<close> registers the session\<close>

text \<open>
  Claim C3, as amended. For a known camera that is not registered, the effects of
  \<open>start\<close> are, in this order: the directory (when it is missing), the spawn, the three
  listeners, and last the insertion into \<open>activeStreams\<close>; the handler runs through
  them without yielding to the event loop. So when the event loop handles two start
  requests for that camera, with any events between them that are neither a start or stop
  request for the camera nor an event of a child spawned for the camera (the new child,
  or an earlier one that was stopped and has not yet closed: its \<^verbatim>\<open>'close'\<close> would remove
  the new entry), the first answers \<open>started\<close>, the second \<open>already_running\<close>, and
  afterwards the camera is registered with the child the first request spawned, the only
  child spawned for it since. The claim as written places the insertion first.
\<close>

theorem start_insertion_order:
  assumes known: "find (\<lambda>s. stream_id s = c) streams = Some s"
    and fresh: "activeStreams st c = None"
    and others: "list_all (other_event c (children st)) es"
  shows "trace (snd (start streams st c))
           = trace st
             @ (if existsSync st (path_join (hlsDir st) c) then []
                else [Mkdir (path_join (hlsDir st) c)])
             @ [Spawn (length (children st)),
                Listen (length (children st)) EvData,
                Listen (length (children st)) EvError,
                Listen (length (children st)) EvClose,
                MapSet c (length (children st))]
       \<and> hd (fst (run_loop streams st ([StartReq c] @ es @ [StartReq c])))
            = Some \<lparr>code = 200, json_body = StartJson ''started'' (hlsUrl c)\<rparr>
       \<and> last (fst (run_loop streams st ([StartReq c] @ es @ [StartReq c])))
            = Some \<lparr>code = 200, json_body = StartJson ''already_running'' (hlsUrl c)\<rparr>
       \<and> activeStreams (snd (run_loop streams st ([StartReq c] @ es @ [StartReq c]))) c
            = Some (length (children st))
       \<and> spawned_for c (snd (run_loop streams st ([StartReq c] @ es @ [StartReq c])))
            = spawned_for c st @ [length (children st)]"
proof -
  let ?h = "length (children st)"
  let ?st1 = "snd (start streams st c)"
  have r1: "fst (start streams st c) = \<lparr>code = 200, json_body = StartJson ''started'' (hlsUrl c)\<rparr>"
    using known fresh by (simp add: start_def effect_defs Let_def)
  have i1: "session_inv c (children st) ?st1"
    by (rule start_establishes_inv [OF known fresh])
  let ?st2 = "snd (run_loop streams ?st1 es)"
  have i2: "session_inv c (children st) ?st2"
    by (rule run_loop_other [OF i1 others])
  then have a2: "activeStreams ?st2 c = Some ?h"
    by (simp add: session_inv_def)
  have s3: "start streams ?st2 c
              = (\<lparr>code = 200, json_body = StartJson ''already_running'' (hlsUrl c)\<rparr>, ?st2)"
    using known a2 by (simp add: start_def)
  have h1: "handle streams st (StartReq c) = (Some (fst (start streams st c)), ?st1)"
    by (simp add: case_prod_beta)
  have "run_loop streams st ([StartReq c] @ es @ [StartReq c])
          = (Some (fst (start streams st c)) # fst (run_loop streams ?st1 es)
               @ [Some \<lparr>code = 200, json_body = StartJson ''already_running'' (hlsUrl c)\<rparr>],
             ?st2)"
    by (simp add: run_loop_append run_loop_Cons h1 s3 del: run_loop.simps handle.simps)
      (simp add: s3)
  with r1 a2 session_inv_spawned_for [OF i2] start_trace [OF known fresh] show ?thesis
    by (simp add: spawned_for_def)
qed

text \<open>
  \<^verbatim>\<open>cambox11\<close> has been started and stopped on the example server, so child 0 is an
  earlier child of the camera. Then two start requests for it; between them a status
  request, and \<^verbatim>\<open>cambox12\<close> is started, stopped and its child, number 2, ends. In the end
  \<^verbatim>\<open>cambox11\<close> is registered with child 1, the one the first of the two requests
  spawned.
\<close>

theorem start_insertion_order_witness:
  "hd (fst (run_loop example_streams
              (snd (stop (snd (start example_streams example_boot ''cambox11'')) ''cambox11''))
              ([StartReq ''cambox11'']
                 @ [StatusReq ''cambox11'', StartReq ''cambox12'', StopReq ''cambox12'',
                    ChildEvent 2 EvClose]
                 @ [StartReq ''cambox11''])))
     = Some \<lparr>code = 200, json_body = StartJson ''started'' (hlsUrl ''cambox11'')\<rparr>
   \<and> last (fst (run_loop example_streams
              (snd (stop (snd (start example_streams example_boot ''cambox11'')) ''cambox11''))
              ([StartReq ''cambox11'']
                 @ [StatusReq ''cambox11'', StartReq ''cambox12'', StopReq ''cambox12'',
                    ChildEvent 2 EvClose]
                 @ [StartReq ''cambox11''])))
     = Some \<lparr>code = 200, json_body = StartJson ''already_running'' (hlsUrl ''cambox11'')\<rparr>
   \<and> activeStreams (snd (run_loop example_streams
              (snd (stop (snd (start example_streams example_boot ''cambox11'')) ''cambox11''))
              ([StartReq ''cambox11'']
                 @ [StatusReq ''cambox11'', StartReq ''cambox12'', StopReq ''cambox12'',
                    ChildEvent 2 EvClose]
                 @ [StartReq ''cambox11'']))) ''cambox11'' = Some 1"
proof -
  let ?es = "[StatusReq ''cambox11'', StartReq ''cambox12'', StopReq ''cambox12'',
              ChildEvent 2 EvClose]"
  let ?st1 = "snd (start example_streams example_boot ''cambox11'')"
  let ?st = "snd (stop ?st1 ''cambox11'')"
  have k: "find (\<lambda>s. stream_id s = ''cambox11'') example_streams = Some (hd example_streams)"
    by (simp add: example_streams_def)
  have b: "activeStreams example_boot ''cambox11'' = None" "length (children example_boot) = 0"
    by (simp_all add: example_boot_eq)
  have a1: "activeStreams ?st1 ''cambox11'' = Some 0" and l1: "length (children ?st1) = 1"
    using start_fresh(2,3) [OF k b(1)] b(2) by simp_all
  have st: "?st = map_delete (kill ?st1 0 ''SIGTERM'') ''cambox11''"
    by (simp add: stop_running [OF a1])
  have f: "activeStreams ?st ''cambox11'' = None"
    and l: "length (children ?st) = 1"
    by (simp_all add: st map_delete_def kill_def l1)
  have o: "list_all (other_event ''cambox11'' (children ?st)) ?es"
    by (simp add: l)
  note t = start_insertion_order [OF k f o]
  from t l show ?thesis
    by simp
qed

text \<open>
  C3 as written fails on the example server: the insertion is the last effect of
  \<open>start\<close>, after the directory, the spawn and the listeners.
\<close>

theorem start_insertion_not_first:
  "trace (snd (start example_streams example_boot ''cambox11''))
     = [Mkdir ''/srv/multiview/hls/cambox11'', Spawn 0, Listen 0 EvData, Listen 0 EvError,
        Listen 0 EvClose, MapSet ''cambox11'' 0]
   \<and> hd (trace (snd (start example_streams example_boot ''cambox11''))) \<noteq> MapSet ''cambox11'' 0"
  by (simp add: example_streams_def example_boot_eq start_def effect_defs Let_def
      example_cameraDir existsSync_def strip_slash_def)

subsection \<open>C4: starting twice\<close>

text \<open>
  Claim C4. For every known camera, of two calls of \<open>start\<close> in immediate succession the
  second answers \<open>already_running\<close> with the \<open>hlsUrl\<close> of the first answer and leaves
  the state as it is (it spawns nothing); and when the camera was not streaming before
  the first call, the first answers \<open>started\<close> and exactly one child has been spawned.
  (When it was streaming already, both calls answer \<open>already_running\<close> and no child is
  spawned.)
\<close>

theorem start_twice:
  assumes known: "find (\<lambda>s. stream_id s = c) streams = Some s"
  shows "fst (start streams (snd (start streams st c)) c)
           = \<lparr>code = 200, json_body = StartJson ''already_running'' (hlsUrl c)\<rparr>
       \<and> fst (start streams st c)
           = \<lparr>code = 200,
              json_body = StartJson (if activeStreams st c = None then ''started''
                                     else ''already_running'') (hlsUrl c)\<rparr>
       \<and> snd (start streams (snd (start streams st c)) c) = snd (start streams st c)
       \<and> length (children (snd (start streams (snd (start streams st c)) c)))
           = length (children st) + (if activeStreams st c = None then 1 else 0)"
proof (cases "activeStreams st c")
  case None
  note f = start_fresh [OF known None]
  from f(2) have "activeStreams (snd (start streams st c)) c = Some (length (children st))"
    by simp
  from start_running [OF known this] f None show ?thesis by simp
next
  case (Some h)
  from start_running [OF known Some] Some show ?thesis by simp
qed

text \<open>The example server and \<^verbatim>\<open>cambox11\<close>: one child after two calls.\<close>

theorem start_twice_witness:
  "fst (start example_streams example_boot ''cambox11'')
     = \<lparr>code = 200, json_body = StartJson ''started'' ''/hls/cambox11/stream.m3u8''\<rparr>
   \<and> fst (start example_streams (snd (start example_streams example_boot ''cambox11'')) ''cambox11'')
     = \<lparr>code = 200, json_body = StartJson ''already_running'' ''/hls/cambox11/stream.m3u8''\<rparr>
   \<and> length (children (snd (start example_streams
                                (snd (start example_streams example_boot ''cambox11'')) ''cambox11''))) = 1"
proof -
  have k: "find (\<lambda>s. stream_id s = ''cambox11'') example_streams = Some (hd example_streams)"
    by (simp add: example_streams_def)
  have f: "activeStreams example_boot ''cambox11'' = None" "length (children example_boot) = 0"
    by (simp_all add: example_boot_eq)
  from start_twice [OF k, of example_boot] f show ?thesis
    by (auto simp add: hlsUrl_def)
qed

subsection \<open>C5: start, stop and status\<close>

text \<open>
  Claim C5. For every camera and state: when \<open>start\<close> succeeds (answers with 200),
  \<open>stream_status\<close> then reports \<open>active: true\<close> with the camera's \<open>hlsUrl\<close>; after \<open>stop\<close>
  it reports \<open>active: false\<close> with \<open>hlsUrl\<close> null, and a second \<open>stop\<close> fails with 404
  \<^verbatim>\<open>Stream not active\<close> (the specification's \<open>NotActive\<close>) and changes nothing; and
  \<open>stream_status\<close> always answers with 200.
\<close>

theorem start_stop_status:
  "(code (fst (start streams st c)) = 200 \<longrightarrow>
       stream_status (snd (start streams st c)) c
         = \<lparr>code = 200, json_body = StatusJson True (Some (hlsUrl c))\<rparr>)
   \<and> stream_status (snd (stop st c)) c = \<lparr>code = 200, json_body = StatusJson False None\<rparr>
   \<and> stop (snd (stop st c)) c
         = (\<lparr>code = 404, json_body = ErrorJson ''Stream not active''\<rparr>, snd (stop st c))
   \<and> code (stream_status st c) = 200"
  by (auto simp add: start_def stop_def stream_status_def effect_defs Let_def
      split: option.splits if_splits)

text \<open>The example server and \<^verbatim>\<open>cambox11\<close>.\<close>

theorem start_stop_status_witness:
  "code (fst (start example_streams example_boot ''cambox11'')) = 200
   \<and> stream_status (snd (start example_streams example_boot ''cambox11'')) ''cambox11''
     = \<lparr>code = 200, json_body = StatusJson True (Some ''/hls/cambox11/stream.m3u8'')\<rparr>
   \<and> stream_status (snd (stop (snd (start example_streams example_boot ''cambox11'')) ''cambox11''))
        ''cambox11''
     = \<lparr>code = 200, json_body = StatusJson False None\<rparr>"
proof -
  have s: "code (fst (start example_streams example_boot ''cambox11'')) = 200"
    by (simp add: start_def example_streams_def example_boot_eq effect_defs Let_def)
  from start_stop_status [of example_streams example_boot "''cambox11''"]
    start_stop_status [of example_streams "snd (start example_streams example_boot ''cambox11'')" "''cambox11''"] s
  show ?thesis by (simp add: hlsUrl_def)
qed

subsection \<open>C6: a child that ends on its own\<close>

text \<open>
  Claim C6. After \<open>start\<close> has spawned a child for a known camera that was not
  registered, the camera is registered with that child; when the child then emits
  \<^verbatim>\<open>'error'\<close> or \<^verbatim>\<open>'close'\<close>, \<open>stream_status\<close> reports \<open>active: false\<close> with no \<open>stop\<close>
  in between; when \<open>stop\<close> has removed the entry before the event, the event leaves
  \<open>activeStreams\<close> as it is; and so does a second event of the child after the first.
\<close>

theorem child_termination:
  assumes known: "find (\<lambda>s. stream_id s = c) streams = Some s"
    and fresh: "activeStreams st c = None"
    and ev: "ev \<noteq> EvData" and ev': "ev' \<noteq> EvData"
  shows "activeStreams (snd (start streams st c)) c = Some (length (children st))
       \<and> stream_status (emit (snd (start streams st c)) (length (children st)) ev) c
            = \<lparr>code = 200, json_body = StatusJson False None\<rparr>
       \<and> activeStreams (emit (snd (stop (snd (start streams st c)) c)) (length (children st)) ev)
            = activeStreams (snd (stop (snd (start streams st c)) c))
       \<and> activeStreams (emit (emit (snd (start streams st c)) (length (children st)) ev)
                           (length (children st)) ev')
            = activeStreams (emit (snd (start streams st c)) (length (children st)) ev)"
proof -
  let ?st1 = "snd (start streams st c)"
  let ?h = "length (children st)"
  let ?ch = "\<lparr>argv = ffmpeg_args s (path_join (hlsDir st) c),
              listeners = [(EvData, c), (EvError, c), (EvClose, c)], signals = []\<rparr>"
  have a1: "activeStreams ?st1 c = Some ?h"
    using start_fresh(2) [OF known fresh] by simp
  have c1: "children ?st1 = children st @ [?ch]"
    by (rule start_fresh_child [OF known fresh])
  have e1: "emit ?st1 ?h ev = map_delete ?st1 c"
    by (rule emit_last_child [OF c1 _ ev]) simp
  have 2: "stream_status (emit ?st1 ?h ev) c = \<lparr>code = 200, json_body = StatusJson False None\<rparr>"
    by (simp add: e1 map_delete_def stream_status_def)
  let ?st2 = "snd (stop ?st1 c)"
  have s2: "?st2 = map_delete (kill ?st1 ?h ''SIGTERM'') c"
    by (simp add: stop_running [OF a1])
  have c2: "children ?st2 = children st @ [?ch\<lparr>signals := [''SIGTERM'']\<rparr>]"
    by (simp add: s2 map_delete_def kill_def c1)
  have e2: "emit ?st2 ?h ev = map_delete ?st2 c"
    by (rule emit_last_child [OF c2 _ ev]) simp
  have 3: "activeStreams (emit ?st2 ?h ev) = activeStreams ?st2"
    by (simp add: e2) (simp add: s2 map_delete_def)
  have c3: "children (emit ?st1 ?h ev) = children st @ [?ch]"
    by (simp add: e1 map_delete_def c1)
  have e3: "emit (emit ?st1 ?h ev) ?h ev' = map_delete (emit ?st1 ?h ev) c"
    by (rule emit_last_child [OF c3 _ ev']) simp
  have 4: "activeStreams (emit (emit ?st1 ?h ev) ?h ev') = activeStreams (emit ?st1 ?h ev)"
    by (simp add: e3) (simp add: e1 map_delete_def)
  from a1 2 3 4 show ?thesis by blast
qed

text \<open>The example server and \<^verbatim>\<open>cambox11\<close>, whose child is number 0.\<close>

theorem child_termination_witness:
  "stream_status (emit (snd (start example_streams example_boot ''cambox11'')) 0 EvClose) ''cambox11''
     = \<lparr>code = 200, json_body = StatusJson False None\<rparr>
   \<and> activeStreams (emit (snd (stop (snd (start example_streams example_boot ''cambox11'')) ''cambox11'')) 0 EvClose)
     = activeStreams (snd (stop (snd (start example_streams example_boot ''cambox11'')) ''cambox11''))"
proof -
  have k: "find (\<lambda>s. stream_id s = ''cambox11'') example_streams = Some (hd example_streams)"
    by (simp add: example_streams_def)
  have f: "activeStreams example_boot ''cambox11'' = None" and n: "length (children example_boot) = 0"
    by (simp_all add: example_boot_eq)
  from child_termination [OF k f, of EvClose EvClose] n show ?thesis by simp
qed

subsection \<open>C7: an unknown camera\<close>

text \<open>
  Claim C7. For every camera identifier that the configuration does not list, \<open>start\<close>
  answers 404 \<^verbatim>\<open>Camera not found\<close> (the specification's \<open>NotFound\<close>) and returns the
  state it was given: no child is spawned and \<open>activeStreams\<close> is unchanged.
\<close>

theorem start_unknown_camera:
  "find (\<lambda>s. stream_id s = cameraId) streams = None \<Longrightarrow>
     start streams st cameraId
       = (\<lparr>code = 404, json_body = ErrorJson ''Camera not found''\<rparr>, st)"
  by (simp add: start_def)

text \<open>The specification's \<^verbatim>\<open>no-such-camera\<close> on the example server.\<close>

theorem start_unknown_camera_witness:
  "find (\<lambda>s. stream_id s = ''no-such-camera'') example_streams = None \<and>
   start example_streams example_boot ''no-such-camera''
     = (\<lparr>code = 404, json_body = ErrorJson ''Camera not found''\<rparr>, example_boot)"
  using start_unknown_camera [of "''no-such-camera''" example_streams example_boot]
  by (simp add: example_streams_def)

subsection \<open>C8: at most two requests\<close>

text \<open>
  Claim C8, as amended. \<open>fetchWithDigest\<close> sends at most two requests, the first being
  the caller's. When the first answer has a status other than 401, that answer is the
  result and no second request is sent. When it is 401 and the digest has been computed,
  and \<^verbatim>\<open>Headers\<close> accepts the caller's headers and the \<^verbatim>\<open>Authorization\<close> value (it holds
  no NUL, LF or CR), the request is sent once more, with the same URL, method and other
  options, and with the headers of the first plus \<^verbatim>\<open>Authorization\<close>; the result is
  whatever answers that second request (any status, also 401, or a rejection). When
  \<^verbatim>\<open>Headers\<close> does not accept them, the call fails with a \<open>TypeError\<close> and no second
  request is sent. The claim as written has the request sent again whenever the digest
  has been computed.
\<close>

theorem at_most_two_requests:
  "length (snd (fetchWithDigest net rnd u opts)) \<le> 2
   \<and> hd (snd (fetchWithDigest net rnd u opts)) = initial_request u opts
   \<and> (net [] (initial_request u opts) = Inr r \<and> status r \<noteq> 401 \<longrightarrow>
        fetchWithDigest net rnd u opts = (Inr r, [initial_request u opts]))
   \<and> (net [] (initial_request u opts) = Inr r \<and> status r = 401
        \<and> parseDigestHeader (headers r ''www-authenticate'') = Inr ps
        \<and> authenticate rnd ps (method_of opts) (pathname u @ search u)
              (username opts) (password opts) = Inr auth \<longrightarrow>
        (new_Headers (req_headers (initial_request u opts)) = Inr h0 \<and> is_header_value auth \<longrightarrow>
           fetchWithDigest net rnd u opts
             = (net [initial_request u opts] (retry_request u opts (h0(''authorization'' \<mapsto> auth))),
                [initial_request u opts, retry_request u opts (h0(''authorization'' \<mapsto> auth))])
           \<and> req_url (retry_request u opts (h0(''authorization'' \<mapsto> auth)))
               = req_url (initial_request u opts)
           \<and> req_method (retry_request u opts (h0(''authorization'' \<mapsto> auth)))
               = req_method (initial_request u opts)
           \<and> req_options (retry_request u opts (h0(''authorization'' \<mapsto> auth)))
               = req_options (initial_request u opts)
           \<and> new_Headers (req_headers (retry_request u opts (h0(''authorization'' \<mapsto> auth))))
               = Inr (h0(''authorization'' \<mapsto> auth)))
        \<and> (isl (new_Headers (req_headers (initial_request u opts))) \<or> \<not> is_header_value auth \<longrightarrow>
             fetchWithDigest net rnd u opts = (Inl TypeError, [initial_request u opts])))"
proof -
  have 1: "length (snd (fetchWithDigest net rnd u opts)) \<le> 2
      \<and> hd (snd (fetchWithDigest net rnd u opts)) = initial_request u opts"
    by (simp add: fetchWithDigest_def Let_def split: sum.splits)
  have 2: "req_url (retry_request u opts h) = req_url (initial_request u opts)
        \<and> req_method (retry_request u opts h) = req_method (initial_request u opts)
        \<and> req_options (retry_request u opts h) = req_options (initial_request u opts)
        \<and> new_Headers (req_headers (retry_request u opts h)) = Inr h" for h
    by (simp add: retry_request_def initial_request_def)
  have 3: "net [] (initial_request u opts) = Inr r \<and> status r \<noteq> 401 \<longrightarrow>
        fetchWithDigest net rnd u opts = (Inr r, [initial_request u opts])"
    by (simp add: fetch_first_not_401)
  have 4: "(new_Headers (req_headers (initial_request u opts)) = Inr h0 \<and> is_header_value auth \<longrightarrow>
           fetchWithDigest net rnd u opts
             = (net [initial_request u opts] (retry_request u opts (h0(''authorization'' \<mapsto> auth))),
                [initial_request u opts, retry_request u opts (h0(''authorization'' \<mapsto> auth))]))
        \<and> (isl (new_Headers (req_headers (initial_request u opts))) \<or> \<not> is_header_value auth \<longrightarrow>
             fetchWithDigest net rnd u opts = (Inl TypeError, [initial_request u opts]))"
    if h: "net [] (initial_request u opts) = Inr r \<and> status r = 401
        \<and> parseDigestHeader (headers r ''www-authenticate'') = Inr ps
        \<and> authenticate rnd ps (method_of opts) (pathname u @ search u)
              (username opts) (password opts) = Inr auth"
  proof -
    from h have n: "net [] (initial_request u opts) = Inr r" and s: "status r = 401"
      and p: "parseDigestHeader (headers r ''www-authenticate'') = Inr ps"
      and a: "authenticate rnd ps (method_of opts) (pathname u @ search u)
              (username opts) (password opts) = Inr auth"
      by simp_all
    note f = fetch_after_digest [where net = net and r = r and u = u and opts = opts, OF n s p a]
    from f(1) [of h0] f(2) show ?thesis by simp
  qed
  from 1 2 [of "h0(''authorization'' \<mapsto> auth)"] 3 4 show ?thesis
    by blast
qed

text \<open>
  A server that answers 200 at once; a camera that answers the retry with 401 again,
  which is returned after two requests; and the same camera asked with a line feed in
  the username.
\<close>

theorem at_most_two_requests_witness:
  \<open>fetchWithDigest (plain_network 200) example_rnd example_url example_options
     = (Inr \<lparr>status = 200, headers = Map.empty, body = ''ok''\<rparr>,
        [initial_request example_url example_options])
   \<and> fst (fetchWithDigest (challenge_network (Some ''Digest realm="R", nonce="N", qop="auth"'') 401)
            example_rnd example_url example_options)
     = Inr \<lparr>status = 401, headers = Map.empty, body = ''ok''\<rparr>
   \<and> length (snd (fetchWithDigest
                     (challenge_network (Some ''Digest realm="R", nonce="N", qop="auth"'') 401)
                     example_rnd example_url example_options)) = 2
   \<and> fetchWithDigest (challenge_network (Some ''Digest realm="R", nonce="N", qop="auth"'') 401)
        example_rnd example_url line_feed_options
     = (Inl TypeError, [initial_request example_url line_feed_options])\<close>
proof -
  let ?r200 = "\<lparr>status = 200, headers = Map.empty, body = ''ok''\<rparr>"
  let ?req1 = "initial_request example_url example_options"
  have a: "plain_network 200 [] ?req1 = Inr ?r200 \<and> status ?r200 \<noteq> 401"
    by (simp add: plain_network_def)
  note t1 = at_most_two_requests [where net = "plain_network 200" and rnd = example_rnd
      and u = example_url and opts = example_options and r = ?r200]
  have 1: "fetchWithDigest (plain_network 200) example_rnd example_url example_options
     = (Inr ?r200, [?req1])"
    using t1 [THEN conjunct2, THEN conjunct2, THEN conjunct1, THEN mp, OF a] .
  let ?net = \<open>challenge_network (Some ''Digest realm="R", nonce="N", qop="auth"'') 401\<close>
  let ?r401 = \<open>\<lparr>status = 401,
      headers = (\<lambda>name. if name = ''www-authenticate''
                          then Some ''Digest realm="R", nonce="N", qop="auth"'' else None),
      body = []\<rparr>\<close>
  let ?auth = "spec_authorization ''u'' ''R'' ''N'' ''/axis-cgi/com/ptz.cgi?pan=1''
      (rfc2617_response md5 (to_hex example_rnd) example_params ''GET''
         ''/axis-cgi/com/ptz.cgi?pan=1'' ''u'' ''p'')
      ''auth'' ''00000001'' (to_hex example_rnd)"
  have b: "?net [] ?req1 = Inr ?r401 \<and> status ?r401 = 401
      \<and> parseDigestHeader (headers ?r401 ''www-authenticate'') = Inr example_params
      \<and> authenticate example_rnd example_params (method_of example_options)
            (pathname example_url @ search example_url)
            (username example_options) (password example_options) = Inr ?auth"
    by (simp add: challenge_network_def parse_example_challenge authenticate_ok
        example_options_def example_url_def method_of_def example_params_def interp_def)
  have v: "new_Headers (req_headers ?req1) = Inr Map.empty \<and> is_header_value ?auth"
    by (simp add: initial_request_def example_options_def rfc2617_response_def
        is_header_value_authorization is_header_value_simps)
  note t2 = at_most_two_requests [where net = ?net and rnd = example_rnd and u = example_url
      and opts = example_options and r = ?r401 and ps = example_params and auth = ?auth
      and ?h0.0 = Map.empty]
  from t2 [THEN conjunct2, THEN conjunct2, THEN conjunct2, THEN mp, OF b, THEN conjunct1,
      THEN mp, OF v]
  have "fetchWithDigest ?net example_rnd example_url example_options
          = (?net [?req1] (retry_request example_url example_options [''authorization'' \<mapsto> ?auth]),
             [?req1, retry_request example_url example_options [''authorization'' \<mapsto> ?auth]])"
    by (rule conjunct1)
  then have 2: "fst (fetchWithDigest ?net example_rnd example_url example_options)
                  = Inr \<lparr>status = 401, headers = Map.empty, body = ''ok''\<rparr>"
    and 3: "length (snd (fetchWithDigest ?net example_rnd example_url example_options)) = 2"
    by (simp_all add: challenge_network_def)
  let ?req1' = "initial_request example_url line_feed_options"
  let ?lf = "''u'' @ [CHR 0x0A] @ ''x''"
  let ?auth' = "spec_authorization ?lf ''R'' ''N'' ''/axis-cgi/com/ptz.cgi?pan=1''
      (rfc2617_response md5 (to_hex example_rnd) example_params ''GET''
         ''/axis-cgi/com/ptz.cgi?pan=1'' ?lf ''p'')
      ''auth'' ''00000001'' (to_hex example_rnd)"
  have b': "?net [] ?req1' = Inr ?r401 \<and> status ?r401 = 401
      \<and> parseDigestHeader (headers ?r401 ''www-authenticate'') = Inr example_params
      \<and> authenticate example_rnd example_params (method_of line_feed_options)
            (pathname example_url @ search example_url)
            (username line_feed_options) (password line_feed_options) = Inr ?auth'"
    by (simp add: challenge_network_def parse_example_challenge authenticate_ok
        line_feed_options_def example_options_def example_url_def method_of_def
        example_params_def interp_def)
  have v': "isl (new_Headers (req_headers ?req1')) \<or> \<not> is_header_value ?auth'"
    by (simp add: spec_authorization_def is_header_value_simps)
  note t3 = at_most_two_requests [where net = ?net and rnd = example_rnd and u = example_url
      and opts = line_feed_options and r = ?r401 and ps = example_params and auth = ?auth'
      and ?h0.0 = Map.empty]
  have 4: "fetchWithDigest ?net example_rnd example_url line_feed_options
             = (Inl TypeError, [?req1'])"
    using t3 [THEN conjunct2, THEN conjunct2, THEN conjunct2, THEN mp, OF b', THEN conjunct2,
        THEN mp, OF v'] .
  from 1 2 3 4 show ?thesis by simp
qed

text \<open>
  C8 as written fails for a username with a line feed, \<^verbatim>\<open>u\<close>, LF, \<^verbatim>\<open>x\<close>: the camera
  answers 401 with the challenge of the round-trip example, \<open>authenticate\<close> computes the
  digest and returns the \<^verbatim>\<open>Authorization\<close> value, \<^verbatim>\<open>Headers.set\<close> refuses it, and the call
  fails with a \<open>TypeError\<close> after its only request.
\<close>

theorem username_with_line_feed_not_retried:
  \<open>authenticate example_rnd example_params (method_of line_feed_options)
       (pathname example_url @ search example_url)
       (username line_feed_options) (password line_feed_options)
     = Inr (spec_authorization (''u'' @ [CHR 0x0A] @ ''x'') ''R'' ''N''
              ''/axis-cgi/com/ptz.cgi?pan=1''
              (rfc2617_response md5 ''0123456789abcdef'' example_params ''GET''
                 ''/axis-cgi/com/ptz.cgi?pan=1'' (''u'' @ [CHR 0x0A] @ ''x'') ''p'')
              ''auth'' ''00000001'' ''0123456789abcdef'')
   \<and> fetchWithDigest (challenge_network (Some ''Digest realm="R", nonce="N", qop="auth"'') 200)
        example_rnd example_url line_feed_options
     = (Inl TypeError, [initial_request example_url line_feed_options])
   \<and> length (snd (fetchWithDigest
                     (challenge_network (Some ''Digest realm="R", nonce="N", qop="auth"'') 200)
                     example_rnd example_url line_feed_options)) = 1\<close>
proof -
  let ?net = \<open>challenge_network (Some ''Digest realm="R", nonce="N", qop="auth"'') 200\<close>
  let ?req1 = "initial_request example_url line_feed_options"
  let ?r401 = \<open>\<lparr>status = 401,
      headers = (\<lambda>name. if name = ''www-authenticate''
                          then Some ''Digest realm="R", nonce="N", qop="auth"'' else None),
      body = []\<rparr>\<close>
  let ?auth = "spec_authorization (''u'' @ [CHR 0x0A] @ ''x'') ''R'' ''N''
              ''/axis-cgi/com/ptz.cgi?pan=1''
              (rfc2617_response md5 ''0123456789abcdef'' example_params ''GET''
                 ''/axis-cgi/com/ptz.cgi?pan=1'' (''u'' @ [CHR 0x0A] @ ''x'') ''p'')
              ''auth'' ''00000001'' ''0123456789abcdef''"
  have n: "?net [] ?req1 = Inr ?r401" and s: "status ?r401 = 401"
    by (simp_all add: challenge_network_def)
  have p: "parseDigestHeader (headers ?r401 ''www-authenticate'') = Inr example_params"
    by (simp add: parse_example_challenge)
  have a: "authenticate example_rnd example_params (method_of line_feed_options)
       (pathname example_url @ search example_url)
       (username line_feed_options) (password line_feed_options) = Inr ?auth"
    by (simp add: authenticate_ok line_feed_options_def example_options_def example_url_def
        method_of_def interp_def example_params_def to_hex_example_rnd)
  have v: "\<not> is_header_value ?auth"
    by (simp add: spec_authorization_def is_header_value_simps)
  then have "isl (new_Headers (req_headers ?req1)) \<or> \<not> is_header_value ?auth" ..
  from fetch_after_digest(2) [where net = ?net and r = ?r401 and u = example_url
      and opts = line_feed_options, OF n s p a this] a
  show ?thesis
    by simp
qed

subsection \<open>C9: the hash algorithm\<close>

text \<open>
  Claim C9, as amended. \<open>authenticate\<close> does not read the challenge's \<^verbatim>\<open>algorithm\<close>
  parameter: whatever it is, or when it is absent, the result is the same; for a
  non-empty username and password it is the header with \<^verbatim>\<open>algorithm=MD5\<close> whose HA1, HA2
  and response are computed with \<open>md5\<close>. The claim as written has the hash follow the
  challenge.
\<close>

theorem algorithm_parameter_unused:
  "authenticate rnd (ps(''algorithm'' := alg)) method digestUri usr pwd
     = authenticate rnd ps method digestUri usr pwd
   \<and> (user \<noteq> [] \<and> pass \<noteq> [] \<longrightarrow>
        authenticate rnd ps method digestUri (Some user) (Some pass)
          = Inr (spec_authorization user (interp (ps ''realm'')) (interp (ps ''nonce'')) digestUri
                   (rfc2617_response md5 (to_hex rnd) ps method digestUri user pass)
                   (interp (ps ''qop'')) ''00000001'' (to_hex rnd)))"
  by (simp add: authenticate_ok) (simp add: authenticate_def)

text \<open>The example challenge with and without \<^verbatim>\<open>algorithm=SHA-256\<close>.\<close>

theorem algorithm_parameter_unused_witness:
  "authenticate example_rnd sha256_params ''GET'' ''/axis-cgi/com/ptz.cgi?pan=1''
       (Some ''u'') (Some ''p'')
     = authenticate example_rnd example_params ''GET'' ''/axis-cgi/com/ptz.cgi?pan=1''
       (Some ''u'') (Some ''p'')
   \<and> authenticate example_rnd example_params ''GET'' ''/axis-cgi/com/ptz.cgi?pan=1''
       (Some ''u'') (Some ''p'')
     = Inr (spec_authorization ''u'' ''R'' ''N'' ''/axis-cgi/com/ptz.cgi?pan=1''
              (rfc2617_response md5 ''0123456789abcdef'' example_params ''GET''
                 ''/axis-cgi/com/ptz.cgi?pan=1'' ''u'' ''p'')
              ''auth'' ''00000001'' ''0123456789abcdef'')"
proof -
  have e: "sha256_params = example_params(''algorithm'' := Some ''SHA-256'')"
    by (simp add: sha256_params_def example_params_def)
  have ne: "''u'' \<noteq> [] \<and> ''p'' \<noteq> []" by simp
  note t = algorithm_parameter_unused [of example_rnd example_params "Some ''SHA-256''" "''GET''"
      "''/axis-cgi/com/ptz.cgi?pan=1''" "Some ''u''" "Some ''p''" "''u''" "''p''"]
  from t [THEN conjunct1] t [THEN conjunct2, THEN mp, OF ne] e show ?thesis
    by (simp add: to_hex_example_rnd interp_def example_params_def)
qed

text \<open>
  C9 as written fails for a challenge that names SHA-256: the hash it names is
  \<open>sha256\<close>, with which the response of the round-trip example is \<^verbatim>\<open>1b37...\<close>; the
  source still answers \<^verbatim>\<open>algorithm=MD5\<close> with the MD5 response \<^verbatim>\<open>c786...\<close>.
\<close>

theorem sha256_challenge_answered_with_md5:
  "named_hash (sha256_params ''algorithm'') = Some sha256
   \<and> authenticate example_rnd sha256_params ''GET'' ''/axis-cgi/com/ptz.cgi?pan=1''
       (Some ''u'') (Some ''p'')
     = Inr (spec_authorization ''u'' ''R'' ''N'' ''/axis-cgi/com/ptz.cgi?pan=1''
              ''c78699d7c72f560f39d4b0c0f00370de'' ''auth'' ''00000001'' ''0123456789abcdef'')
   \<and> rfc2617_response sha256 ''0123456789abcdef'' sha256_params ''GET''
         ''/axis-cgi/com/ptz.cgi?pan=1'' ''u'' ''p''
     = ''1b375ece3c3494d724d6dea1264f32ce73ee90f42bb2284b43181f24003d82ec''
   \<and> authenticate example_rnd sha256_params ''GET'' ''/axis-cgi/com/ptz.cgi?pan=1''
       (Some ''u'') (Some ''p'')
     \<noteq> Inr (spec_authorization ''u'' ''R'' ''N'' ''/axis-cgi/com/ptz.cgi?pan=1''
              (rfc2617_response sha256 ''0123456789abcdef'' sha256_params ''GET''
                 ''/axis-cgi/com/ptz.cgi?pan=1'' ''u'' ''p'')
              ''auth'' ''00000001'' ''0123456789abcdef'')"
proof -
  have a: "named_hash (sha256_params ''algorithm'') = Some sha256"
    by (simp add: named_hash_def sha256_params_def)
  have b: "authenticate example_rnd sha256_params ''GET'' ''/axis-cgi/com/ptz.cgi?pan=1''
       (Some ''u'') (Some ''p'')
     = Inr (spec_authorization ''u'' ''R'' ''N'' ''/axis-cgi/com/ptz.cgi?pan=1''
              ''c78699d7c72f560f39d4b0c0f00370de'' ''auth'' ''00000001'' ''0123456789abcdef'')"
    by (simp add: authenticate_ok rfc2617_response_def interp_def sha256_params_def
        to_hex_example_rnd md5_ha1 [simplified] md5_ha2 [simplified]
        md5_response_code [simplified])
  have c: "rfc2617_response sha256 ''0123456789abcdef'' sha256_params ''GET''
         ''/axis-cgi/com/ptz.cgi?pan=1'' ''u'' ''p''
     = ''1b375ece3c3494d724d6dea1264f32ce73ee90f42bb2284b43181f24003d82ec''"
    by (simp add: rfc2617_response_def interp_def sha256_params_def
        sha256_ha1 [simplified] sha256_ha2 [simplified] sha256_response [simplified])
  have d: "spec_authorization ''u'' ''R'' ''N'' ''/axis-cgi/com/ptz.cgi?pan=1''
              ''c78699d7c72f560f39d4b0c0f00370de'' ''auth'' ''00000001'' ''0123456789abcdef''
         \<noteq> spec_authorization ''u'' ''R'' ''N'' ''/axis-cgi/com/ptz.cgi?pan=1''
              ''1b375ece3c3494d724d6dea1264f32ce73ee90f42bb2284b43181f24003d82ec''
              ''auth'' ''00000001'' ''0123456789abcdef''"
    by (simp add: spec_authorization_def)
  from a b c d show ?thesis by simp
qed

subsection \<open>C10: \<open>parseDigestHeader\<close> accepts everything behind \<^verbatim>\<open>Digest \<close>\<close>

text \<open>
  Claim C10. For every header that begins with \<^verbatim>\<open>Digest \<close>, \<open>parseDigestHeader\<close> returns
  a mapping (the loop ends and nothing is thrown), whatever follows the prefix. It fails
  only with \<open>ProtocolError\<close>, and exactly when the header is absent or does not begin
  with \<^verbatim>\<open>Digest \<close>. Quoted values are stored without their quotes: a challenge of
  quoted pairs \<^verbatim>\<open>k1="v1", k2="v2", ...\<close> gives the mapping of each key to its value, a
  later pair winning over an earlier one with the same key.
\<close>

theorem parseDigestHeader_total:
  "(\<exists>ps. parseDigestHeader (Some (''Digest '' @ rest)) = Inr ps)
   \<and> (parseDigestHeader header = Inl e \<longrightarrow>
        e = ProtocolError \<and> (header = None \<or> (\<exists>h. header = Some h \<and> take 7 h \<noteq> ''Digest '')))
   \<and> (header = None \<or> (\<exists>h. header = Some h \<and> take 7 h \<noteq> ''Digest '') \<longrightarrow>
        parseDigestHeader header = Inl ProtocolError)
   \<and> (list_all quoted_pair pairs \<longrightarrow>
        parseDigestHeader (Some (''Digest '' @ render_pairs pairs))
          = Inr (map_of (rev pairs)))"
proof -
  have 1: "\<exists>ps. parseDigestHeader (Some (''Digest '' @ rest)) = Inr ps"
    using match_loop_succeeds [of rest Map.empty] by (simp add: parseDigestHeader_def)
  have 2: "parseDigestHeader header = Inl e \<longrightarrow>
        e = ProtocolError \<and> (header = None \<or> (\<exists>h. header = Some h \<and> take 7 h \<noteq> ''Digest ''))"
  proof (cases header)
    case None
    then show ?thesis by (auto simp add: parseDigestHeader_def)
  next
    case (Some h)
    show ?thesis
    proof (cases "h = [] \<or> take 7 h \<noteq> ''Digest ''")
      case True
      with Some show ?thesis by (auto simp add: parseDigestHeader_def)
    next
      case False
      with Some match_loop_succeeds [of "drop 7 h" Map.empty] show ?thesis
        by (auto simp add: parseDigestHeader_def)
    qed
  qed
  have 3: "header = None \<or> (\<exists>h. header = Some h \<and> take 7 h \<noteq> ''Digest '') \<longrightarrow>
        parseDigestHeader header = Inl ProtocolError"
    by (auto simp add: parseDigestHeader_def)
  have 4: "list_all quoted_pair pairs \<longrightarrow>
        parseDigestHeader (Some (''Digest '' @ render_pairs pairs))
          = Inr (map_of (rev pairs))"
    by (simp add: parseDigestHeader_def match_loop_pairs)
  from 1 2 3 4 show ?thesis by blast
qed

text \<open>
  A challenge without nonce is parsed; a \<^verbatim>\<open>Basic\<close> challenge is the error; the
  challenge of the round-trip example gives its three parameters without quotes.
\<close>

theorem parseDigestHeader_total_witness:
  \<open>(\<exists>ps. parseDigestHeader (Some ''Digest realm="R", qop="auth"'') = Inr ps)
   \<and> parseDigestHeader (Some ''Basic realm="R"'') = Inl ProtocolError
   \<and> take 7 ''Basic realm="R"'' \<noteq> ''Digest ''
   \<and> parseDigestHeader (Some ''Digest realm="R", nonce="N", qop="auth"'')
       = Inr [''realm'' \<mapsto> ''R'', ''nonce'' \<mapsto> ''N'', ''qop'' \<mapsto> ''auth'']\<close>
proof -
  note t = parseDigestHeader_total [of \<open>''realm="R", qop="auth"''\<close> \<open>Some ''Basic realm="R"''\<close>
      ProtocolError "[(''realm'', ''R''), (''nonce'', ''N''), (''qop'', ''auth'')]"]
  have c: \<open>take 7 ''Basic realm="R"'' \<noteq> ''Digest ''\<close> by simp
  have 1: \<open>\<exists>ps. parseDigestHeader (Some ''Digest realm="R", qop="auth"'') = Inr ps\<close>
    using t [THEN conjunct1] by simp
  have 2: \<open>parseDigestHeader (Some ''Basic realm="R"'') = Inl ProtocolError\<close>
    using t [THEN conjunct2, THEN conjunct2, THEN conjunct1] c by blast
  have d: "list_all quoted_pair [(''realm'', ''R''), (''nonce'', ''N''), (''qop'', ''auth'')]"
    by (simp add: quoted_pair_def dq_def)
  have 3: \<open>parseDigestHeader (Some ''Digest realm="R", nonce="N", qop="auth"'')
       = Inr [''realm'' \<mapsto> ''R'', ''nonce'' \<mapsto> ''N'', ''qop'' \<mapsto> ''auth'']\<close>
    using t [THEN conjunct2, THEN conjunct2, THEN conjunct2, THEN mp, OF d]
    by (simp add: dq_def)
  from 1 2 c 3 show ?thesis by blast
qed

end
